theory Spec2Isabelle
  imports
    Main
    "HOL-Library.Multiset"
    "HOL-Library.Char_ord"
    "HOL-Library.List_Lexorder"
    "HOL-Library.Sublist"
begin

section \<open>Data model\<close>

text \<open>
  Go errors. A collaborator's error is an opaque value identified by its text;
  \<^verbatim>\<open>fmt.Errorf("<prefix>%w", err)\<close> builds a new error that carries the prefix
  and wraps \<open>err\<close> as its cause.
\<close>

datatype error = Opaque string | Errorf string error

text \<open>\<^verbatim>\<open>errors.Unwrap\<close> and \<^verbatim>\<open>errors.Is\<close> on that representation.\<close>

fun Unwrap :: "error \<Rightarrow> error option" where
  "Unwrap (Opaque m) = None"
| "Unwrap (Errorf m cause) = Some cause"

fun errors_Is :: "error \<Rightarrow> error \<Rightarrow> bool" where
  "errors_Is (Opaque m) target = (Opaque m = target)"
| "errors_Is (Errorf m cause) target = (Errorf m cause = target \<or> errors_Is cause target)"

text \<open>\<^verbatim>\<open>cmmeta.ObjectReference\<close>: the issuer reference of a request.\<close>

record ObjectReference =
  ref_Name :: string
  ref_Kind :: string
  ref_Group :: string

text \<open>
  \<^verbatim>\<open>crp.Spec.IssuerRefSelector\<close>: three optional patterns (Go \<^verbatim>\<open>*string\<close>,
  \<^verbatim>\<open>nil\<close> is \<open>None\<close>).
\<close>

record IssuerRefSelector_spec =
  sel_Name :: "string option"
  sel_Kind :: "string option"
  sel_Group :: "string option"

text \<open>One entry of \<^verbatim>\<open>crp.Status.Conditions\<close>; both fields are Go string types.\<close>

record Condition =
  cond_Type :: string
  cond_Status :: string

definition CertificateRequestPolicyConditionReady :: string where
  \<comment> \<open>Modelled from the spec: the constant of the API package naming the readiness
      condition; its declaration is not part of the sources.\<close>
  "CertificateRequestPolicyConditionReady = ''Ready''"

definition ConditionTrue :: string where
  \<comment> \<open>\<^verbatim>\<open>corev1.ConditionTrue\<close> of the Kubernetes core API.\<close>
  "ConditionTrue = ''True''"

datatype KeyAlgorithm = RSA | ECDSA | Ed25519

text \<open>
  \<^verbatim>\<open>cmpapi.PolicyPrivateKey\<close>: the private-key constraints of a policy.
\<close>

record PolicyPrivateKey =
  AllowedAlgorithm :: "KeyAlgorithm option"
  MinSize :: "nat option"
  MaxSize :: "nat option"

text \<open>
  \<^verbatim>\<open>cmpapi.CertificateRequestPolicy\<close>. Fields are named by their path in the Go
  struct: \<open>Name\<close> is \<^verbatim>\<open>crp.Name\<close>, \<open>Spec_IssuerRefSelector\<close> is
  \<^verbatim>\<open>crp.Spec.IssuerRefSelector\<close>, \<open>Status_Conditions\<close> is
  \<^verbatim>\<open>crp.Status.Conditions\<close>. Durations are nanoseconds, as \<^verbatim>\<open>time.Duration\<close>.
\<close>

record CertificateRequestPolicy =
  Name :: string
  Spec_IssuerRefSelector :: IssuerRefSelector_spec
  Status_Conditions :: "Condition list"
  Spec_AllowedCommonName :: "string option"
  Spec_MinDuration :: "int option"
  Spec_AllowedDNSNames :: "string list option"
  Spec_AllowedIPAddresses :: "string list option"
  Spec_AllowedURIs :: "string list option"
  Spec_AllowedIssuers :: "ObjectReference list option"
  Spec_AllowedIsCA :: "bool option"
  Spec_AllowedPrivateKey :: "PolicyPrivateKey option"

text \<open>
  \<^verbatim>\<open>cmapi.CertificateRequest\<close>, with the attributes of the encoded signing request
  decoded (common name, subject alternative names, key).
\<close>

record CertificateRequest =
  Namespace :: string
  Spec_Username :: string
  Spec_Groups :: "string list"
  Spec_UID :: string
  Spec_Extra :: "string \<rightharpoonup> string list"
  Spec_IssuerRef :: ObjectReference
  Spec_Duration :: "int option"
  Spec_IsCA :: bool
  CommonName :: string
  DNSNames :: "string list"
  IPAddresses :: "string list"
  URIs :: "string list"
  PublicKeyAlgorithm :: KeyAlgorithm
  PublicKeySize :: nat

text \<open>\<^verbatim>\<open>authzv1.ResourceAttributes\<close> and \<^verbatim>\<open>authzv1.SubjectAccessReviewSpec\<close>.\<close>

record ResourceAttributes =
  ra_Group :: string
  ra_Resource :: string
  ra_Name :: string
  ra_Namespace :: string
  ra_Verb :: string

record SubjectAccessReviewSpec =
  sar_User :: string
  sar_Groups :: "string list"
  sar_Extra :: "string \<rightharpoonup> string list"
  sar_UID :: string
  sar_ResourceAttributes :: ResourceAttributes

text \<open>
  The two calls the code makes on \<^verbatim>\<open>client.Client\<close>. \<open>client_List\<close> is the
  answer of \<^verbatim>\<open>List\<close> for the policy list; \<open>client_Create\<close> answers the creation
  of a subject access review with an error or with the \<^verbatim>\<open>Status.Allowed\<close> it
  fills in.
\<close>

record Client =
  client_List :: "error + CertificateRequestPolicy list"
  client_Create :: "SubjectAccessReviewSpec \<Rightarrow> error + bool"

text \<open>
  \<^verbatim>\<open>approver.EvaluationResult\<close> and \<^verbatim>\<open>approver.EvaluationResponse\<close>. The
  declarations are not part of the sources; the two results are those the code and the
  specification name.
\<close>

datatype EvaluationResult = approver_ResultDenied | approver_ResultNotDenied

record EvaluationResponse =
  er_Result :: EvaluationResult
  er_Message :: string

text \<open>
  \<^verbatim>\<open>approver.Evaluator\<close>: the \<^verbatim>\<open>Evaluate\<close> method of a registered evaluator
  (the context argument carries no data).
\<close>

type_synonym Evaluator =
  "CertificateRequestPolicy \<Rightarrow> CertificateRequest \<Rightarrow> error + EvaluationResponse"

text \<open>
  \<^verbatim>\<open>manager.ReviewResult\<close> and \<^verbatim>\<open>manager.ReviewResponse\<close>, with the three
  results \<^verbatim>\<open>Review\<close> returns.
\<close>

datatype ReviewResult = ResultApproved | ResultDenied | ResultUnprocessed

record ReviewResponse =
  rr_Result :: ReviewResult
  rr_Message :: string

text \<open>The manager struct of \<^verbatim>\<open>subjectaccessreview.go\<close>.\<close>

record subjectaccessreview =
  client :: Client
  evaluators :: "Evaluator list"

text \<open>The struct \<^verbatim>\<open>policyMessage\<close> collected by \<^verbatim>\<open>Review\<close>.\<close>

record policyMessage =
  pm_name :: string
  pm_message :: string

section \<open>Wildcard matching\<close>

fun WildcardMatchs :: "string \<Rightarrow> string \<Rightarrow> bool" where
  \<comment> \<open>Modelled from the spec: \<^verbatim>\<open>internal.WildcardMatchs(pattern, str)\<close> is not part
      of the sources. The spec: a glob-style pattern where \<^verbatim>\<open>*\<close> matches any run of
      characters; a pattern with no \<^verbatim>\<open>*\<close> requires an exact match.\<close>
  "WildcardMatchs [] [] = True"
| "WildcardMatchs [] (d # str) = False"
| "WildcardMatchs (c # pattern) [] = (c = CHR ''*'' \<and> WildcardMatchs pattern [])"
| "WildcardMatchs (c # pattern) (d # str) =
     (if c = CHR ''*''
      then WildcardMatchs pattern (d # str) \<or> WildcardMatchs (c # pattern) str
      else c = d \<and> WildcardMatchs pattern str)"

section \<open>Selection predicates (package predicate)\<close>

text \<open>
  A \<^verbatim>\<open>Predicate\<close> returns \<^verbatim>\<open>([]CertificateRequestPolicy, error)\<close>; a non-nil
  error is \<open>Inl\<close>. Each \<^verbatim>\<open>for ... range\<close> loop is a recursion over the rest of the
  slice that carries the slice being appended to.
\<close>

fun Ready_conditions ::
  "Condition list \<Rightarrow> CertificateRequestPolicy \<Rightarrow> CertificateRequestPolicy list
    \<Rightarrow> CertificateRequestPolicy list" where
  "Ready_conditions [] crp readyPolicies = readyPolicies"
| "Ready_conditions (condition # rest) crp readyPolicies =
     Ready_conditions rest crp
       (if cond_Type condition = CertificateRequestPolicyConditionReady
           \<and> cond_Status condition = ConditionTrue
        then readyPolicies @ [crp] else readyPolicies)"

fun Ready_loop ::
  "CertificateRequestPolicy list \<Rightarrow> CertificateRequestPolicy list
    \<Rightarrow> CertificateRequestPolicy list" where
  "Ready_loop [] readyPolicies = readyPolicies"
| "Ready_loop (crp # rest) readyPolicies =
     Ready_loop rest (Ready_conditions (Status_Conditions crp) crp readyPolicies)"

definition Ready ::
  "CertificateRequest \<Rightarrow> CertificateRequestPolicy list
    \<Rightarrow> error + CertificateRequestPolicy list" where
  "Ready cr policies = Inr (Ready_loop policies [])"

fun IssuerRefSelector_loop ::
  "CertificateRequest \<Rightarrow> CertificateRequestPolicy list \<Rightarrow> CertificateRequestPolicy list
    \<Rightarrow> CertificateRequestPolicy list" where
  "IssuerRefSelector_loop cr [] matchingPolicies = matchingPolicies"
| "IssuerRefSelector_loop cr (crp # rest) matchingPolicies =
     (let issRefSel = Spec_IssuerRefSelector crp; issRef = Spec_IssuerRef cr in
      if (case sel_Name issRefSel of None \<Rightarrow> False
          | Some pat \<Rightarrow> \<not> WildcardMatchs pat (ref_Name issRef))
      then IssuerRefSelector_loop cr rest matchingPolicies
      else if (case sel_Kind issRefSel of None \<Rightarrow> False
          | Some pat \<Rightarrow> \<not> WildcardMatchs pat (ref_Kind issRef))
      then IssuerRefSelector_loop cr rest matchingPolicies
      else if (case sel_Group issRefSel of None \<Rightarrow> False
          | Some pat \<Rightarrow> \<not> WildcardMatchs pat (ref_Group issRef))
      then IssuerRefSelector_loop cr rest matchingPolicies
      else IssuerRefSelector_loop cr rest (matchingPolicies @ [crp]))"

definition IssuerRefSelector ::
  "CertificateRequest \<Rightarrow> CertificateRequestPolicy list
    \<Rightarrow> error + CertificateRequestPolicy list" where
  "IssuerRefSelector cr policies = Inr (IssuerRefSelector_loop cr policies [])"

text \<open>
  \<^verbatim>\<open>RBACBound(client)\<close>. The map \<^verbatim>\<open>extra\<close> is a fresh copy of
  \<^verbatim>\<open>cr.Spec.Extra\<close>, key by key, so it is the same map. Beside the predicate's
  result the model returns the subject access reviews handed to
  \<^verbatim>\<open>client.Create\<close>, in the order of the calls.
\<close>

fun RBACBound_loop ::
  "Client \<Rightarrow> CertificateRequest \<Rightarrow> CertificateRequestPolicy list
    \<Rightarrow> CertificateRequestPolicy list \<Rightarrow> SubjectAccessReviewSpec list
    \<Rightarrow> (error + CertificateRequestPolicy list) \<times> SubjectAccessReviewSpec list" where
  "RBACBound_loop cl cr [] boundPolicies created = (Inr boundPolicies, created)"
| "RBACBound_loop cl cr (crp # rest) boundPolicies created =
     (let extra = Spec_Extra cr;
          rev = \<lparr>sar_User = Spec_Username cr, sar_Groups = Spec_Groups cr,
                 sar_Extra = extra, sar_UID = Spec_UID cr,
                 sar_ResourceAttributes =
                   \<lparr>ra_Group = ''policy.cert-manager.io'',
                    ra_Resource = ''certificaterequestpolicies'',
                    ra_Name = Name crp, ra_Namespace = Namespace cr,
                    ra_Verb = ''use''\<rparr>\<rparr>
      in case client_Create cl rev of
           Inl err \<Rightarrow>
             (Inl (Errorf ''failed to create subjectaccessreview: '' err), created @ [rev])
         | Inr allowed \<Rightarrow>
             RBACBound_loop cl cr rest
               (if allowed then boundPolicies @ [crp] else boundPolicies)
               (created @ [rev]))"

definition RBACBound ::
  "Client \<Rightarrow> CertificateRequest \<Rightarrow> CertificateRequestPolicy list
    \<Rightarrow> (error + CertificateRequestPolicy list) \<times> SubjectAccessReviewSpec list" where
  "RBACBound cl cr policies = RBACBound_loop cl cr policies [] []"

section \<open>The manager (package manager)\<close>

fun issuerRefSelector_loop ::
  "CertificateRequest \<Rightarrow> CertificateRequestPolicy list \<Rightarrow> CertificateRequestPolicy list
    \<Rightarrow> CertificateRequestPolicy list" where
  "issuerRefSelector_loop cr [] matchingPolicies = matchingPolicies"
| "issuerRefSelector_loop cr (crp # rest) matchingPolicies =
     (let issRefSel = Spec_IssuerRefSelector crp; issRef = Spec_IssuerRef cr in
      if (case sel_Name issRefSel of None \<Rightarrow> False
          | Some pat \<Rightarrow> \<not> WildcardMatchs pat (ref_Name issRef))
      then issuerRefSelector_loop cr rest matchingPolicies
      else if (case sel_Kind issRefSel of None \<Rightarrow> False
          | Some pat \<Rightarrow> \<not> WildcardMatchs pat (ref_Kind issRef))
      then issuerRefSelector_loop cr rest matchingPolicies
      else if (case sel_Group issRefSel of None \<Rightarrow> False
          | Some pat \<Rightarrow> \<not> WildcardMatchs pat (ref_Group issRef))
      then issuerRefSelector_loop cr rest matchingPolicies
      else issuerRefSelector_loop cr rest (matchingPolicies @ [crp]))"

definition issuerRefSelector ::
  "CertificateRequest \<Rightarrow> CertificateRequestPolicy list \<Rightarrow> CertificateRequestPolicy list" where
  "issuerRefSelector cr allPolicies = issuerRefSelector_loop cr allPolicies []"

fun boundPolicies_loop ::
  "subjectaccessreview \<Rightarrow> CertificateRequest \<Rightarrow> CertificateRequestPolicy list
    \<Rightarrow> CertificateRequestPolicy list \<Rightarrow> SubjectAccessReviewSpec list
    \<Rightarrow> (error + CertificateRequestPolicy list) \<times> SubjectAccessReviewSpec list" where
  "boundPolicies_loop s cr [] boundPolicies created = (Inr boundPolicies, created)"
| "boundPolicies_loop s cr (crp # rest) boundPolicies created =
     (let extra = Spec_Extra cr;
          rev = \<lparr>sar_User = Spec_Username cr, sar_Groups = Spec_Groups cr,
                 sar_Extra = extra, sar_UID = Spec_UID cr,
                 sar_ResourceAttributes =
                   \<lparr>ra_Group = ''policy.cert-manager.io'',
                    ra_Resource = ''certificaterequestpolicies'',
                    ra_Name = Name crp, ra_Namespace = Namespace cr,
                    ra_Verb = ''use''\<rparr>\<rparr>
      in case client_Create (client s) rev of
           Inl err \<Rightarrow>
             (Inl (Errorf ''failed to create subjectaccessreview: '' err), created @ [rev])
         | Inr allowed \<Rightarrow>
             boundPolicies_loop s cr rest
               (if allowed then boundPolicies @ [crp] else boundPolicies)
               (created @ [rev]))"

definition boundPolicies ::
  "subjectaccessreview \<Rightarrow> CertificateRequest \<Rightarrow> CertificateRequestPolicy list
    \<Rightarrow> (error + CertificateRequestPolicy list) \<times> SubjectAccessReviewSpec list" where
  "boundPolicies s cr allPolicies = boundPolicies_loop s cr allPolicies [] []"

text \<open>\<^verbatim>\<open>strings.Join(elems, sep)\<close>.\<close>

fun strings_Join :: "string list \<Rightarrow> string \<Rightarrow> string" where
  "strings_Join [] sep = []"
| "strings_Join [e] sep = e"
| "strings_Join (e # e' # elems) sep = e @ sep @ strings_Join (e' # elems) sep"

text \<open>
  The inner loop of \<^verbatim>\<open>Review\<close> (lines 96 to 112): every evaluator is run on the
  policy; an error returns at once, a denial is recorded and the loop goes on.
\<close>

fun Review_evaluators ::
  "Evaluator list \<Rightarrow> CertificateRequestPolicy \<Rightarrow> CertificateRequest \<Rightarrow> bool \<Rightarrow> string list
    \<Rightarrow> error + bool \<times> string list" where
  "Review_evaluators [] crp cr evaluatorDenied evaluatorMessages =
     Inr (evaluatorDenied, evaluatorMessages)"
| "Review_evaluators (evaluator # rest) crp cr evaluatorDenied evaluatorMessages =
     (case evaluator crp cr of
        Inl err \<Rightarrow> Inl err
      | Inr response \<Rightarrow>
          Review_evaluators rest crp cr
            (if er_Result response = approver_ResultDenied then True else evaluatorDenied)
            (evaluatorMessages @ [er_Message response]))"

text \<open>
  The tail of \<^verbatim>\<open>Review\<close> (lines 126 to 140): the stable sort by policy name
  (\<^verbatim>\<open>sort.SliceStable\<close> with \<^verbatim>\<open><\<close> on the names, the bytewise order of Go
  strings) and the denial message.
\<close>

definition Review_denied :: "policyMessage list \<Rightarrow> ReviewResponse" where
  "Review_denied policyMessages =
     (let sorted_messages = sort_key pm_name policyMessages;
          messages = map (\<lambda>pm. ''['' @ pm_name pm @ '': '' @ pm_message pm @ '']'')
                       sorted_messages
      in \<lparr>rr_Result = ResultDenied,
          rr_Message = ''No policy approved this request: '' @ strings_Join messages '' ''\<rparr>)"

text \<open>
  The outer loop of \<^verbatim>\<open>Review\<close> (lines 90 to 124) followed by its tail. The
  parameter \<open>quote\<close> is the \<^verbatim>\<open>%q\<close> verb of \<^verbatim>\<open>fmt.Sprintf\<close> (a double-quoted,
  escaped Go string literal) of the Go standard library.
\<close>

fun Review_policies ::
  "(string \<Rightarrow> string) \<Rightarrow> Evaluator list \<Rightarrow> CertificateRequest
    \<Rightarrow> CertificateRequestPolicy list \<Rightarrow> policyMessage list \<Rightarrow> error + ReviewResponse" where
  "Review_policies quote evs cr [] policyMessages = Inr (Review_denied policyMessages)"
| "Review_policies quote evs cr (crp # rest) policyMessages =
     (case Review_evaluators evs crp cr False [] of
        Inl err \<Rightarrow> Inl err
      | Inr (evaluatorDenied, evaluatorMessages) \<Rightarrow>
          if \<not> evaluatorDenied
          then Inr \<lparr>rr_Result = ResultApproved,
                    rr_Message = ''Approved by CertificateRequestPolicy: '' @ quote (Name crp)\<rparr>
          else Review_policies quote evs cr rest
                 (policyMessages @
                    [\<lparr>pm_name = Name crp,
                      pm_message = strings_Join evaluatorMessages '', ''\<rparr>]))"

text \<open>
  \<^verbatim>\<open>Review\<close>. Go's \<^verbatim>\<open>(ReviewResponse{}, err)\<close> with a non-nil error is
  \<open>Inl err\<close>: the empty response carries no decision.
\<close>

definition Review ::
  "(string \<Rightarrow> string) \<Rightarrow> subjectaccessreview \<Rightarrow> CertificateRequest
    \<Rightarrow> error + ReviewResponse" where
  "Review quote s cr =
     (case client_List (client s) of
        Inl err \<Rightarrow> Inl err
      | Inr crps \<Rightarrow>
          if length crps = 0
          then Inr \<lparr>rr_Result = ResultUnprocessed,
                    rr_Message = ''No CertificateRequestPolicies exist''\<rparr>
          else
            (let policies = issuerRefSelector cr crps in
             case fst (boundPolicies s cr policies) of
               Inl err \<Rightarrow> Inl (Errorf ''failed to determine bound policies: '' err)
             | Inr policies \<Rightarrow>
                 if length policies = 0
                 then Inr \<lparr>rr_Result = ResultUnprocessed,
                           rr_Message = ''No CertificateRequestPolicies bound or applicable''\<rparr>
                 else Review_policies quote (evaluators s) cr policies []))"

section \<open>The attribute evaluator\<close>

text \<open>
  The method \<^verbatim>\<open>Evaluate\<close> of the attribute evaluator is not part of the sources
  (only its registration and its test are); it is modelled from the specification. A
  violation names the field path, the offending value of the request and the allowed
  value of the policy. The test of the evaluator fixes the paths and the order of the
  fields.
\<close>

datatype Value =
  VString string
| VStrings "string list"
| VBool bool
| VDuration int
| VIssuer ObjectReference
| VIssuers "ObjectReference list"
| VAlgorithm KeyAlgorithm
| VSize nat

record Violation =
  field_path :: string
  request_value :: Value
  allowed_value :: Value

definition entry_if :: "bool \<Rightarrow> string \<Rightarrow> Value \<Rightarrow> Value \<Rightarrow> Violation list" where
  \<comment> \<open>Modelled from the spec: one entry per violated field, none for a field that is
      not violated.\<close>
  "entry_if violated path v a =
     (if violated then [\<lparr>field_path = path, request_value = v, allowed_value = a\<rparr>] else [])"

definition matches_some :: "string list \<Rightarrow> string \<Rightarrow> bool" where
  \<comment> \<open>Modelled from the spec: an element matches at least one pattern of the allowed
      set.\<close>
  "matches_some patterns v = list_ex (\<lambda>pat. WildcardMatchs pat v) patterns"

definition all_match_some :: "string list \<Rightarrow> string list \<Rightarrow> bool" where
  \<comment> \<open>Modelled from the spec: a constraint on a sequence field is satisfied only if
      every element of the request's sequence matches at least one allowed pattern.\<close>
  "all_match_some patterns vs = list_all (matches_some patterns) vs"

definition issuer_matches :: "ObjectReference \<Rightarrow> ObjectReference \<Rightarrow> bool" where
  \<comment> \<open>Modelled from the spec: the request's (name, kind, group) matches a tuple of
      patterns, field by field.\<close>
  "issuer_matches ref pat =
     (WildcardMatchs (ref_Name pat) (ref_Name ref)
      \<and> WildcardMatchs (ref_Kind pat) (ref_Kind ref)
      \<and> WildcardMatchs (ref_Group pat) (ref_Group ref))"

definition private_key_violations ::
  "PolicyPrivateKey \<Rightarrow> CertificateRequest \<Rightarrow> Violation list" where
  \<comment> \<open>Modelled from the spec: the algorithm is an exact-match constraint, unset meaning
      any; a size outside the allowed minimum and maximum is a violation.\<close>
  "private_key_violations key cr =
     (case AllowedAlgorithm key of None \<Rightarrow> []
      | Some alg \<Rightarrow>
          entry_if (PublicKeyAlgorithm cr \<noteq> alg) ''spec.allowedPrivateKey.allowedAlgorithm''
            (VAlgorithm (PublicKeyAlgorithm cr)) (VAlgorithm alg))
     @ (case MinSize key of None \<Rightarrow> []
      | Some n \<Rightarrow>
          entry_if (PublicKeySize cr < n) ''spec.allowedPrivateKey.minSize''
            (VSize (PublicKeySize cr)) (VSize n))
     @ (case MaxSize key of None \<Rightarrow> []
      | Some n \<Rightarrow>
          entry_if (n < PublicKeySize cr) ''spec.allowedPrivateKey.maxSize''
            (VSize (PublicKeySize cr)) (VSize n))"

definition attribute_violations ::
  "CertificateRequestPolicy \<Rightarrow> CertificateRequest \<Rightarrow> Violation list" where
  \<comment> \<open>Modelled from the spec: for each request field with a policy constraint set, a
      violation if the field fails the constraint; all violations are collected. Patterns
      are wildcard patterns, the duration has a lower bound only (a request without a
      duration requests none that is below it), the CA flag is compared for equality, the
      issuer must match one of the allowed issuers.\<close>
  "attribute_violations crp cr =
     (case Spec_AllowedCommonName crp of None \<Rightarrow> []
      | Some pat \<Rightarrow>
          entry_if (\<not> WildcardMatchs pat (CommonName cr)) ''spec.allowedCommonName''
            (VString (CommonName cr)) (VString pat))
     @ (case Spec_MinDuration crp of None \<Rightarrow> []
      | Some minimum \<Rightarrow>
          (case Spec_Duration cr of None \<Rightarrow> []
           | Some d \<Rightarrow>
               entry_if (d < minimum) ''spec.minDuration'' (VDuration d) (VDuration minimum)))
     @ (case Spec_AllowedDNSNames crp of None \<Rightarrow> []
      | Some pats \<Rightarrow>
          entry_if (\<not> all_match_some pats (DNSNames cr)) ''spec.allowedDNSNames''
            (VStrings (DNSNames cr)) (VStrings pats))
     @ (case Spec_AllowedIPAddresses crp of None \<Rightarrow> []
      | Some pats \<Rightarrow>
          entry_if (\<not> all_match_some pats (IPAddresses cr)) ''spec.allowedIPAddresses''
            (VStrings (IPAddresses cr)) (VStrings pats))
     @ (case Spec_AllowedURIs crp of None \<Rightarrow> []
      | Some pats \<Rightarrow>
          entry_if (\<not> all_match_some pats (URIs cr)) ''spec.allowedURIs''
            (VStrings (URIs cr)) (VStrings pats))
     @ (case Spec_AllowedIssuers crp of None \<Rightarrow> []
      | Some issuers \<Rightarrow>
          entry_if (\<not> list_ex (issuer_matches (Spec_IssuerRef cr)) issuers) ''spec.allowedIssuers''
            (VIssuer (Spec_IssuerRef cr)) (VIssuers issuers))
     @ (case Spec_AllowedIsCA crp of None \<Rightarrow> []
      | Some flag \<Rightarrow>
          entry_if (Spec_IsCA cr \<noteq> flag) ''spec.allowedIsCA''
            (VBool (Spec_IsCA cr)) (VBool flag))
     @ (case Spec_AllowedPrivateKey crp of None \<Rightarrow> []
      | Some key \<Rightarrow> private_key_violations key cr)"

definition violation_entry :: "(Value \<Rightarrow> string) \<Rightarrow> Violation \<Rightarrow> string" where
  \<comment> \<open>Modelled from the spec: an entry names the field path, the offending request
      value and the allowed value; the printing of values is a parameter.\<close>
  "violation_entry pr v =
     field_path v @ '': '' @ pr (request_value v) @ '': '' @ pr (allowed_value v)"

definition attribute_Evaluate :: "(Value \<Rightarrow> string) \<Rightarrow> Evaluator" where
  \<comment> \<open>Modelled from the spec: \<^verbatim>\<open>NotDenied\<close> with an empty message if there is no
      violation, otherwise \<^verbatim>\<open>Denied\<close> with the violations joined into one message.\<close>
  "attribute_Evaluate pr crp cr =
     (let violations = attribute_violations crp cr in
      if violations = []
      then Inr \<lparr>er_Result = approver_ResultNotDenied, er_Message = []\<rparr>
      else Inr \<lparr>er_Result = approver_ResultDenied,
                er_Message = strings_Join (map (violation_entry pr) violations) '', ''\<rparr>)"

definition no_constraints :: "CertificateRequestPolicy \<Rightarrow> bool" where
  "no_constraints crp =
     (Spec_AllowedCommonName crp = None \<and> Spec_MinDuration crp = None
      \<and> Spec_AllowedDNSNames crp = None \<and> Spec_AllowedIPAddresses crp = None
      \<and> Spec_AllowedURIs crp = None \<and> Spec_AllowedIssuers crp = None
      \<and> Spec_AllowedIsCA crp = None
      \<and> (case Spec_AllowedPrivateKey crp of None \<Rightarrow> True
          | Some key \<Rightarrow> AllowedAlgorithm key = None \<and> MinSize key = None \<and> MaxSize key = None))"

definition attribute_paths :: "string list" where
  "attribute_paths =
     [''spec.allowedCommonName'', ''spec.minDuration'', ''spec.allowedDNSNames'',
      ''spec.allowedIPAddresses'', ''spec.allowedURIs'', ''spec.allowedIssuers'',
      ''spec.allowedIsCA'', ''spec.allowedPrivateKey.allowedAlgorithm'',
      ''spec.allowedPrivateKey.minSize'', ''spec.allowedPrivateKey.maxSize'']"

section \<open>Notions used to state the properties\<close>

text \<open>
  A selector field keeps a request field when it is unset or when its pattern matches;
  a selector keeps a request when its three fields do.
\<close>

definition field_matches :: "string option \<Rightarrow> string \<Rightarrow> bool" where
  "field_matches sel v = (case sel of None \<Rightarrow> True | Some pat \<Rightarrow> WildcardMatchs pat v)"

definition selector_keeps :: "CertificateRequest \<Rightarrow> CertificateRequestPolicy \<Rightarrow> bool" where
  "selector_keeps cr crp =
     (field_matches (sel_Name (Spec_IssuerRefSelector crp)) (ref_Name (Spec_IssuerRef cr))
      \<and> field_matches (sel_Kind (Spec_IssuerRefSelector crp)) (ref_Kind (Spec_IssuerRef cr))
      \<and> field_matches (sel_Group (Spec_IssuerRefSelector crp)) (ref_Group (Spec_IssuerRef cr)))"

text \<open>
  The subject access review that the RBAC loops build for one policy, and the two
  answers of the client that matter: the check is allowed, the check fails.
\<close>

definition use_review ::
  "CertificateRequest \<Rightarrow> CertificateRequestPolicy \<Rightarrow> SubjectAccessReviewSpec" where
  "use_review cr crp =
     \<lparr>sar_User = Spec_Username cr, sar_Groups = Spec_Groups cr,
      sar_Extra = Spec_Extra cr, sar_UID = Spec_UID cr,
      sar_ResourceAttributes =
        \<lparr>ra_Group = ''policy.cert-manager.io'',
         ra_Resource = ''certificaterequestpolicies'',
         ra_Name = Name crp, ra_Namespace = Namespace cr,
         ra_Verb = ''use''\<rparr>\<rparr>"

definition allowed :: "Client \<Rightarrow> CertificateRequest \<Rightarrow> CertificateRequestPolicy \<Rightarrow> bool" where
  "allowed cl cr crp = (client_Create cl (use_review cr crp) = Inr True)"

definition check_fails :: "Client \<Rightarrow> CertificateRequest \<Rightarrow> CertificateRequestPolicy \<Rightarrow> bool" where
  "check_fails cl cr crp = isl (client_Create cl (use_review cr crp))"

text \<open>The readiness condition of a policy, as \<^verbatim>\<open>Ready\<close> tests it.\<close>

definition is_ready :: "CertificateRequestPolicy \<Rightarrow> bool" where
  "is_ready crp =
     list_ex (\<lambda>condition. cond_Type condition = CertificateRequestPolicyConditionReady
                \<and> cond_Status condition = ConditionTrue)
       (Status_Conditions crp)"

text \<open>The conditions of a policy for which \<^verbatim>\<open>Ready\<close> appends it.\<close>

definition ready_conditions :: "CertificateRequestPolicy \<Rightarrow> Condition list" where
  "ready_conditions crp =
     filter (\<lambda>condition. cond_Type condition = CertificateRequestPolicyConditionReady
                \<and> cond_Status condition = ConditionTrue)
       (Status_Conditions crp)"

text \<open>
  What the evaluators say about one policy: each of them returns
  \<^verbatim>\<open>ResultNotDenied\<close>; one of them returns an error; the messages they return; the
  policy is consulted and denied (no evaluator errors, and not all return
  \<^verbatim>\<open>ResultNotDenied\<close>); the entry \<^verbatim>\<open>Review\<close> collects for a denied policy.
\<close>

definition returns_NotDenied ::
  "CertificateRequest \<Rightarrow> CertificateRequestPolicy \<Rightarrow> Evaluator \<Rightarrow> bool" where
  "returns_NotDenied cr crp evaluator =
     (case evaluator crp cr of Inl err \<Rightarrow> False
      | Inr response \<Rightarrow> er_Result response = approver_ResultNotDenied)"

definition fully_satisfies ::
  "Evaluator list \<Rightarrow> CertificateRequest \<Rightarrow> CertificateRequestPolicy \<Rightarrow> bool" where
  "fully_satisfies evs cr crp = list_all (returns_NotDenied cr crp) evs"

definition evaluator_errors ::
  "Evaluator list \<Rightarrow> CertificateRequest \<Rightarrow> CertificateRequestPolicy \<Rightarrow> bool" where
  "evaluator_errors evs cr crp = list_ex (\<lambda>evaluator. isl (evaluator crp cr)) evs"

definition evaluator_messages ::
  "Evaluator list \<Rightarrow> CertificateRequest \<Rightarrow> CertificateRequestPolicy \<Rightarrow> string list" where
  "evaluator_messages evs cr crp =
     map (\<lambda>evaluator. case evaluator crp cr of Inl err \<Rightarrow> []
                       | Inr response \<Rightarrow> er_Message response) evs"

definition denied_by ::
  "Evaluator list \<Rightarrow> CertificateRequest \<Rightarrow> CertificateRequestPolicy \<Rightarrow> bool" where
  "denied_by evs cr crp = (\<not> evaluator_errors evs cr crp \<and> \<not> fully_satisfies evs cr crp)"

definition policy_message ::
  "Evaluator list \<Rightarrow> CertificateRequest \<Rightarrow> CertificateRequestPolicy \<Rightarrow> policyMessage" where
  "policy_message evs cr crp =
     \<lparr>pm_name = Name crp,
      pm_message = strings_Join (evaluator_messages evs cr crp) '', ''\<rparr>"

text \<open>
  The policies that survive the selection of \<^verbatim>\<open>Review\<close>: the listing, then
  \<^verbatim>\<open>issuerRefSelector\<close>, then \<^verbatim>\<open>boundPolicies\<close>; an error of the listing or
  of a check leaves no candidates.
\<close>

definition candidates ::
  "subjectaccessreview \<Rightarrow> CertificateRequest \<Rightarrow> error + CertificateRequestPolicy list" where
  "candidates s cr =
     (case client_List (client s) of
        Inl err \<Rightarrow> Inl err
      | Inr crps \<Rightarrow> fst (boundPolicies s cr (issuerRefSelector cr crps)))"

section \<open>Example data\<close>

definition example_request :: CertificateRequest where
  "example_request =
     \<lparr>Namespace = ''default'', Spec_Username = ''alice'', Spec_Groups = [''dev''],
      Spec_UID = ''1234'', Spec_Extra = Map.empty,
      Spec_IssuerRef =
        \<lparr>ref_Name = ''my-issuer'', ref_Kind = ''Issuer'', ref_Group = ''cert-manager.io''\<rparr>,
      Spec_Duration = None, Spec_IsCA = False, CommonName = ''test'', DNSNames = [],
      IPAddresses = [], URIs = [], PublicKeyAlgorithm = RSA, PublicKeySize = 2048\<rparr>"

definition any_issuer :: IssuerRefSelector_spec where
  "any_issuer = \<lparr>sel_Name = None, sel_Kind = None, sel_Group = None\<rparr>"

text \<open>A policy without constraints, of a given name, selector and conditions.\<close>

definition example_policy ::
  "string \<Rightarrow> IssuerRefSelector_spec \<Rightarrow> Condition list \<Rightarrow> CertificateRequestPolicy" where
  "example_policy name sel conditions =
     \<lparr>Name = name, Spec_IssuerRefSelector = sel, Status_Conditions = conditions,
      Spec_AllowedCommonName = None, Spec_MinDuration = None, Spec_AllowedDNSNames = None,
      Spec_AllowedIPAddresses = None, Spec_AllowedURIs = None, Spec_AllowedIssuers = None,
      Spec_AllowedIsCA = None, Spec_AllowedPrivateKey = None\<rparr>"

definition ready_true :: Condition where
  "ready_true = \<lparr>cond_Type = ''Ready'', cond_Status = ''True''\<rparr>"

text \<open>
  A client that lists the given policies and answers a check by the name of the policy
  the review is about.
\<close>

definition example_client ::
  "CertificateRequestPolicy list \<Rightarrow> (string \<Rightarrow> error + bool) \<Rightarrow> Client" where
  "example_client crps answer =
     \<lparr>client_List = Inr crps,
      client_Create = (\<lambda>rev. answer (ra_Name (sar_ResourceAttributes rev)))\<rparr>"

text \<open>Policy a is allowed, policy b is not, the check for any other policy fails.\<close>

definition example_answer :: "string \<Rightarrow> error + bool" where
  "example_answer name =
     (if name = ''a'' then Inr True else if name = ''b'' then Inr False
      else Inl (Opaque ''connection refused''))"

text \<open>Two selectors with patterns.\<close>

definition example_selector :: IssuerRefSelector_spec where
  "example_selector = \<lparr>sel_Name = Some ''my-*'', sel_Kind = None, sel_Group = Some ''*.io''\<rparr>"

definition other_selector :: IssuerRefSelector_spec where
  "other_selector =
     \<lparr>sel_Name = Some ''my-*'', sel_Kind = Some ''ClusterIssuer'', sel_Group = None\<rparr>"

text \<open>
  The \<^verbatim>\<open>%q\<close> verb on a string of printable ASCII characters without a double
  quote or a backslash (every Kubernetes object name is one): the string between
  double quotes.
\<close>

definition quote_plain :: "string \<Rightarrow> string" where
  "quote_plain str = CHR 0x22 # str @ [CHR 0x22]"

text \<open>A client that allows every check.\<close>

definition allow_all :: "string \<Rightarrow> error + bool" where
  "allow_all name = Inr True"

text \<open>
  Three evaluators. The first fails on the policy named broken and does not deny
  any other; the second denies a common name other than the one the policy allows;
  the third denies a CA flag other than the one the policy allows.
\<close>

definition failing_evaluator :: Evaluator where
  "failing_evaluator crp cr =
     (if Name crp = ''broken'' then Inl (Opaque ''evaluator failed'')
      else Inr \<lparr>er_Result = approver_ResultNotDenied, er_Message = []\<rparr>)"

definition common_name_evaluator :: Evaluator where
  "common_name_evaluator crp cr =
     (case Spec_AllowedCommonName crp of
        None \<Rightarrow> Inr \<lparr>er_Result = approver_ResultNotDenied, er_Message = []\<rparr>
      | Some name \<Rightarrow>
          if name = CommonName cr
          then Inr \<lparr>er_Result = approver_ResultNotDenied, er_Message = []\<rparr>
          else Inr \<lparr>er_Result = approver_ResultDenied,
                    er_Message = ''common name must be '' @ name\<rparr>)"

definition ca_evaluator :: Evaluator where
  "ca_evaluator crp cr =
     (case Spec_AllowedIsCA crp of
        None \<Rightarrow> Inr \<lparr>er_Result = approver_ResultNotDenied, er_Message = []\<rparr>
      | Some flag \<Rightarrow>
          if flag = Spec_IsCA cr
          then Inr \<lparr>er_Result = approver_ResultNotDenied, er_Message = []\<rparr>
          else Inr \<lparr>er_Result = approver_ResultDenied, er_Message = ''CA flag not allowed''\<rparr>)"

text \<open>A policy that allows one common name, and one that also requires a CA.\<close>

definition name_policy :: "string \<Rightarrow> string \<Rightarrow> CertificateRequestPolicy" where
  "name_policy name common_name =
     (example_policy name any_issuer [])\<lparr>Spec_AllowedCommonName := Some common_name\<rparr>"

definition ca_policy :: "string \<Rightarrow> string \<Rightarrow> CertificateRequestPolicy" where
  "ca_policy name common_name =
     (example_policy name any_issuer [])
       \<lparr>Spec_AllowedCommonName := Some common_name, Spec_AllowedIsCA := Some True\<rparr>"

text \<open>A manager over a client that lists the given policies and allows every check.\<close>

definition example_manager ::
  "CertificateRequestPolicy list \<Rightarrow> Evaluator list \<Rightarrow> subjectaccessreview" where
  "example_manager crps evs = \<lparr>client = example_client crps allow_all, evaluators = evs\<rparr>"

text \<open>A manager whose client fails to list the policies.\<close>

definition failing_list_manager :: subjectaccessreview where
  "failing_list_manager =
     \<lparr>client = \<lparr>client_List = Inl (Opaque ''list failed''), client_Create = (\<lambda>rev. Inr True)\<rparr>,
      evaluators = [common_name_evaluator]\<rparr>"

text \<open>A printer of values and the request and policy of the evaluator's test.\<close>

fun show_nat :: "nat \<Rightarrow> string" where
  "show_nat n =
     (if n < 10 then [''0123456789'' ! n]
      else show_nat (n div 10) @ [''0123456789'' ! (n mod 10)])"

declare show_nat.simps [simp del]

definition show_ref :: "ObjectReference \<Rightarrow> string" where
  "show_ref r = ''{'' @ ref_Name r @ '' '' @ ref_Kind r @ '' '' @ ref_Group r @ ''}''"

fun show_Value :: "Value \<Rightarrow> string" where
  "show_Value (VString str) = str"
| "show_Value (VStrings strs) = ''['' @ strings_Join strs '' '' @ '']''"
| "show_Value (VBool b) = (if b then ''true'' else ''false'')"
| "show_Value (VDuration d) = (if d < 0 then ''-'' else []) @ show_nat (nat \<bar>d\<bar>) @ ''ns''"
| "show_Value (VIssuer r) = show_ref r"
| "show_Value (VIssuers rs) = ''['' @ strings_Join (map show_ref rs) '' '' @ '']''"
| "show_Value (VAlgorithm alg) =
     (case alg of RSA \<Rightarrow> ''RSA'' | ECDSA \<Rightarrow> ''ECDSA'' | Ed25519 \<Rightarrow> ''Ed25519'')"
| "show_Value (VSize n) = show_nat n"

definition test_request :: CertificateRequest where
  "test_request =
     example_request
       \<lparr>Spec_IssuerRef := \<lparr>ref_Name = ''my-issuer'', ref_Kind = ''my-kind'', ref_Group = ''my-group''\<rparr>,
        Spec_Duration := Some 360000000000000, Spec_IsCA := True,
        DNSNames := [''foo.bar'', ''example.com''], IPAddresses := [''1.2.3.4''],
        URIs := [''hello.world'']\<rparr>"

definition test_policy :: CertificateRequestPolicy where
  "test_policy =
     (example_policy ''p'' any_issuer [])
       \<lparr>Spec_AllowedCommonName := Some ''not-test'',
        Spec_MinDuration := Some 720000000000000,
        Spec_AllowedDNSNames := Some [''not-foo.bar''],
        Spec_AllowedIPAddresses := Some [''5.6.7.8''],
        Spec_AllowedURIs := Some [''world.hello''],
        Spec_AllowedIssuers :=
          Some [\<lparr>ref_Name = ''not-my-issuer'', ref_Kind = ''not-my-kind'',
                 ref_Group = ''not-my-group''\<rparr>],
        Spec_AllowedIsCA := Some False,
        Spec_AllowedPrivateKey :=
          Some \<lparr>AllowedAlgorithm = Some ECDSA, MinSize = None, MaxSize = None\<rparr>\<rparr>"

section \<open>The loops as filters\<close>

lemma IssuerRefSelector_loop_filter:
  "IssuerRefSelector_loop cr policies acc = acc @ filter (selector_keeps cr) policies"
  by (induction policies arbitrary: acc)
     (auto simp: selector_keeps_def field_matches_def Let_def split: option.splits)

lemma issuerRefSelector_loop_filter:
  "issuerRefSelector_loop cr policies acc = acc @ filter (selector_keeps cr) policies"
  by (induction policies arbitrary: acc)
     (auto simp: selector_keeps_def field_matches_def Let_def split: option.splits)

lemma issuerRefSelector_filter:
  "issuerRefSelector cr policies = filter (selector_keeps cr) policies"
  by (simp add: issuerRefSelector_def issuerRefSelector_loop_filter)

lemma boundPolicies_loop_RBACBound_loop:
  "boundPolicies_loop s cr policies acc created =
     RBACBound_loop (client s) cr policies acc created"
  by (induction policies arbitrary: acc created) (simp_all add: Let_def split: sum.splits)

lemma boundPolicies_RBACBound: "boundPolicies s cr policies = RBACBound (client s) cr policies"
  by (simp add: boundPolicies_def RBACBound_def boundPolicies_loop_RBACBound_loop)

lemma RBACBound_loop_ok:
  "\<forall>crp \<in> set policies. \<not> check_fails cl cr crp \<Longrightarrow>
   RBACBound_loop cl cr policies acc created =
     (Inr (acc @ filter (allowed cl cr) policies), created @ map (use_review cr) policies)"
proof (induction policies arbitrary: acc created)
  case Nil
  then show ?case by simp
next
  case (Cons crp rest)
  from Cons.prems obtain a where a: "client_Create cl (use_review cr crp) = Inr a"
    by (cases "client_Create cl (use_review cr crp)") (auto simp: check_fails_def)
  from Cons.prems have rest: "\<forall>p \<in> set rest. \<not> check_fails cl cr p" by simp
  show ?case
    using a Cons.IH [OF rest] by (simp add: Let_def use_review_def [symmetric] allowed_def)
qed

lemma RBACBound_loop_error:
  "\<forall>p \<in> set pre. \<not> check_fails cl cr p \<Longrightarrow>
   client_Create cl (use_review cr crp) = Inl err \<Longrightarrow>
   RBACBound_loop cl cr (pre @ crp # post) acc created =
     (Inl (Errorf ''failed to create subjectaccessreview: '' err),
      created @ map (use_review cr) (pre @ [crp]))"
proof (induction pre arbitrary: acc created)
  case Nil
  then show ?case by (simp add: Let_def use_review_def [symmetric])
next
  case (Cons p pre)
  from Cons.prems obtain a where a: "client_Create cl (use_review cr p) = Inr a"
    by (cases "client_Create cl (use_review cr p)") (auto simp: check_fails_def)
  from Cons.prems have rest: "\<forall>p \<in> set pre. \<not> check_fails cl cr p" by simp
  show ?case
    using a Cons.IH [OF rest Cons.prems(2)] by (simp add: Let_def use_review_def [symmetric])
qed

lemma WildcardMatchs_Nil: "WildcardMatchs [] str \<longleftrightarrow> str = []"
  by (cases str) simp_all

lemma WildcardMatchs_star:
  "WildcardMatchs (CHR ''*'' # pattern) str \<longleftrightarrow>
     (\<exists>run rest. str = run @ rest \<and> WildcardMatchs pattern rest)"
proof (induction str)
  case Nil
  then show ?case by simp
next
  case (Cons d str)
  show ?case
  proof
    assume "WildcardMatchs (CHR ''*'' # pattern) (d # str)"
    then consider "WildcardMatchs pattern (d # str)" | "WildcardMatchs (CHR ''*'' # pattern) str"
      by auto
    then show "\<exists>run rest. d # str = run @ rest \<and> WildcardMatchs pattern rest"
    proof cases
      case 1
      then have "d # str = [] @ d # str \<and> WildcardMatchs pattern (d # str)" by simp
      then show ?thesis by blast
    next
      case 2
      with Cons.IH obtain run rest where "str = run @ rest" "WildcardMatchs pattern rest"
        by blast
      then have "d # str = (d # run) @ rest \<and> WildcardMatchs pattern rest" by simp
      then show ?thesis by blast
    qed
  next
    assume "\<exists>run rest. d # str = run @ rest \<and> WildcardMatchs pattern rest"
    then obtain run rest where eq: "d # str = run @ rest" and m: "WildcardMatchs pattern rest"
      by blast
    show "WildcardMatchs (CHR ''*'' # pattern) (d # str)"
    proof (cases run)
      case Nil
      with eq have "rest = d # str" by simp
      with m show ?thesis by simp
    next
      case (Cons r run')
      with eq have "str = run' @ rest" by simp
      with m Cons.IH have "WildcardMatchs (CHR ''*'' # pattern) str" by blast
      then show ?thesis by simp
    qed
  qed
qed

lemma WildcardMatchs_char:
  "c \<noteq> CHR ''*'' \<Longrightarrow>
   WildcardMatchs (c # pattern) str \<longleftrightarrow>
     (\<exists>rest. str = c # rest \<and> WildcardMatchs pattern rest)"
  by (cases str) auto

lemma WildcardMatchs_literal:
  "CHR ''*'' \<notin> set pattern \<Longrightarrow> WildcardMatchs pattern str \<longleftrightarrow> str = pattern"
proof (induction pattern arbitrary: str)
  case Nil
  then show ?case by (simp add: WildcardMatchs_Nil)
next
  case (Cons c pattern)
  then show ?case by (cases str) auto
qed

section \<open>The loops of Review\<close>

lemma fully_satisfies_no_error: "fully_satisfies evs cr crp \<Longrightarrow> \<not> evaluator_errors evs cr crp"
  by (induction evs)
     (auto simp: fully_satisfies_def evaluator_errors_def returns_NotDenied_def split: sum.splits)

lemma Review_evaluators_no_error:
  "\<not> evaluator_errors evs cr crp \<Longrightarrow>
   Review_evaluators evs crp cr denied msgs =
     Inr (denied \<or> \<not> fully_satisfies evs cr crp, msgs @ evaluator_messages evs cr crp)"
proof (induction evs arbitrary: denied msgs)
  case Nil
  then show ?case by (simp add: fully_satisfies_def evaluator_messages_def)
next
  case (Cons ev evs)
  from Cons.prems obtain response where r: "ev crp cr = Inr response"
    by (cases "ev crp cr") (auto simp: evaluator_errors_def)
  from Cons.prems have rest: "\<not> evaluator_errors evs cr crp"
    by (simp add: evaluator_errors_def)
  have two: "er_Result response \<noteq> approver_ResultDenied \<longleftrightarrow> er_Result response = approver_ResultNotDenied"
    by (cases "er_Result response") simp_all
  show ?case
    using r two Cons.IH [OF rest]
    by (auto simp: fully_satisfies_def evaluator_messages_def returns_NotDenied_def)
qed

lemma Review_evaluators_error:
  "\<not> evaluator_errors before cr crp \<Longrightarrow> ev crp cr = Inl err \<Longrightarrow>
   Review_evaluators (before @ ev # after) crp cr denied msgs = Inl err"
proof (induction before arbitrary: denied msgs)
  case Nil
  then show ?case by simp
next
  case (Cons e before)
  from Cons.prems obtain response where r: "e crp cr = Inr response"
    by (cases "e crp cr") (auto simp: evaluator_errors_def)
  from Cons.prems have rest: "\<not> evaluator_errors before cr crp"
    by (simp add: evaluator_errors_def)
  show ?case using r Cons.IH [OF rest Cons.prems(2)] by simp
qed

lemma evaluator_errors_first:
  assumes "evaluator_errors evs cr crp"
  obtains before ev after err where
    "evs = before @ ev # after" "\<not> evaluator_errors before cr crp" "ev crp cr = Inl err"
proof -
  from assms have "\<exists>ev \<in> set evs. isl (ev crp cr)"
    by (simp add: evaluator_errors_def list_ex_iff)
  from split_list_first_prop [OF this] obtain before ev after where
    split: "evs = before @ ev # after" "isl (ev crp cr)" "\<forall>e \<in> set before. \<not> isl (e crp cr)"
    by blast
  from split(2) obtain err where "ev crp cr = Inl err" by (cases "ev crp cr") auto
  moreover from split(3) have "\<not> evaluator_errors before cr crp"
    by (simp add: evaluator_errors_def list_ex_iff)
  ultimately show thesis using split(1) that by blast
qed

lemma Review_evaluators_errors:
  "evaluator_errors evs cr crp \<Longrightarrow> \<exists>err. Review_evaluators evs crp cr denied msgs = Inl err"
  by (erule evaluator_errors_first) (auto simp: Review_evaluators_error)

lemma Review_policies_denied:
  "\<forall>p \<in> set policies. denied_by evs cr p \<Longrightarrow>
   Review_policies quote evs cr policies pms =
     Inr (Review_denied (pms @ map (policy_message evs cr) policies))"
proof (induction policies arbitrary: pms)
  case Nil
  then show ?case by simp
next
  case (Cons crp rest)
  from Cons.prems have d: "denied_by evs cr crp" and rest: "\<forall>p \<in> set rest. denied_by evs cr p"
    by simp_all
  from d have "Review_evaluators evs crp cr False [] = Inr (True, evaluator_messages evs cr crp)"
    by (simp add: denied_by_def Review_evaluators_no_error)
  then show ?case
    using Cons.IH [OF rest] by (simp add: policy_message_def)
qed

lemma Review_policies_approved:
  "\<forall>p \<in> set pre. denied_by evs cr p \<Longrightarrow> fully_satisfies evs cr crp \<Longrightarrow>
   Review_policies quote evs cr (pre @ crp # post) pms =
     Inr \<lparr>rr_Result = ResultApproved,
          rr_Message = ''Approved by CertificateRequestPolicy: '' @ quote (Name crp)\<rparr>"
proof (induction pre arbitrary: pms)
  case Nil
  then show ?case
    by (simp add: Review_evaluators_no_error fully_satisfies_no_error)
next
  case (Cons p pre)
  from Cons.prems have d: "denied_by evs cr p" and rest: "\<forall>p \<in> set pre. denied_by evs cr p"
    by simp_all
  from d have "Review_evaluators evs p cr False [] = Inr (True, evaluator_messages evs cr p)"
    by (simp add: denied_by_def Review_evaluators_no_error)
  then show ?case
    using Cons.IH [OF rest Cons.prems(2)] by simp
qed

lemma Review_policies_error:
  "\<forall>p \<in> set pre. denied_by evs cr p \<Longrightarrow>
   Review_evaluators evs crp cr False [] = Inl err \<Longrightarrow>
   Review_policies quote evs cr (pre @ crp # post) pms = Inl err"
proof (induction pre arbitrary: pms)
  case Nil
  then show ?case by simp
next
  case (Cons p pre)
  from Cons.prems have d: "denied_by evs cr p" and rest: "\<forall>p \<in> set pre. denied_by evs cr p"
    by simp_all
  from d have "Review_evaluators evs p cr False [] = Inr (True, evaluator_messages evs cr p)"
    by (simp add: denied_by_def Review_evaluators_no_error)
  then show ?case
    using Cons.IH [OF rest Cons.prems(2)] by simp
qed

lemma policies_cases:
  obtains (denied) "\<forall>p \<in> set policies. denied_by evs cr p"
  | (approved) pre crp post where "policies = pre @ crp # post"
      "\<forall>p \<in> set pre. denied_by evs cr p" "fully_satisfies evs cr crp"
  | (error) pre crp post where "policies = pre @ crp # post"
      "\<forall>p \<in> set pre. denied_by evs cr p" "evaluator_errors evs cr crp"
proof (cases "\<forall>p \<in> set policies. denied_by evs cr p")
  case True
  then show thesis by (rule denied)
next
  case False
  then have "\<exists>p \<in> set policies. \<not> denied_by evs cr p" by simp
  from split_list_first_prop [OF this] obtain pre crp post where
    split: "policies = pre @ crp # post" "\<not> denied_by evs cr crp"
      "\<forall>p \<in> set pre. \<not> \<not> denied_by evs cr p"
    by blast
  then have pre: "\<forall>p \<in> set pre. denied_by evs cr p" by simp
  show thesis
  proof (cases "evaluator_errors evs cr crp")
    case True
    with split(1) pre show thesis by (rule error)
  next
    case False
    with split(2) have "fully_satisfies evs cr crp" by (simp add: denied_by_def)
    with split(1) pre show thesis by (rule approved)
  qed
qed

lemma Review_denied_result [simp]: "rr_Result (Review_denied pms) = ResultDenied"
  by (simp add: Review_denied_def Let_def)

lemma candidates_list_empty:
  "client_List (client s) = Inr [] \<Longrightarrow> candidates s cr = Inr []"
  by (simp add: candidates_def issuerRefSelector_def boundPolicies_def)

lemma Review_candidates:
  assumes "candidates s cr = Inr policies"
  shows "Review quote s cr =
    (if policies = []
     then Inr \<lparr>rr_Result = ResultUnprocessed,
               rr_Message = (if client_List (client s) = Inr []
                             then ''No CertificateRequestPolicies exist''
                             else ''No CertificateRequestPolicies bound or applicable'')\<rparr>
     else Review_policies quote (evaluators s) cr policies [])"
proof (cases "client_List (client s)")
  case (Inl err)
  with assms show ?thesis by (simp add: candidates_def)
next
  case (Inr crps)
  show ?thesis
  proof (cases "crps = []")
    case True
    with Inr assms candidates_list_empty [of s cr] show ?thesis
      by (simp add: Review_def)
  next
    case False
    with Inr assms show ?thesis
      by (simp add: Review_def candidates_def Let_def)
  qed
qed

lemma Review_candidates_error:
  assumes "candidates s cr = Inl err"
  shows "\<exists>err'. Review quote s cr = Inl err'"
proof (cases "client_List (client s)")
  case (Inl e)
  then show ?thesis by (simp add: Review_def)
next
  case (Inr crps)
  with assms have b: "fst (boundPolicies s cr (issuerRefSelector cr crps)) = Inl err"
    by (simp add: candidates_def)
  have "crps \<noteq> []"
  proof
    assume "crps = []"
    with Inr have "candidates s cr = Inr []" by (simp add: candidates_list_empty)
    with assms show False by simp
  qed
  with Inr b show ?thesis by (simp add: Review_def Let_def)
qed

lemma errors_Is_refl: "errors_Is err err"
  by (cases err) simp_all

lemma Review_policies_not_Unprocessed:
  "Review_policies quote evs cr policies pms = Inr r \<Longrightarrow> rr_Result r \<noteq> ResultUnprocessed"
proof (cases policies evs cr rule: policies_cases)
  case denied
  assume "Review_policies quote evs cr policies pms = Inr r"
  with denied show ?thesis by (auto simp: Review_policies_denied)
next
  case (approved pre crp post)
  assume "Review_policies quote evs cr policies pms = Inr r"
  with approved show ?thesis by (auto simp: Review_policies_approved)
next
  case (error pre crp post)
  assume r: "Review_policies quote evs cr policies pms = Inr r"
  from error(3) obtain err where "Review_evaluators evs crp cr False [] = Inl err"
    using Review_evaluators_errors by blast
  with error(1,2) have "Review_policies quote evs cr policies pms = Inl err"
    by (simp add: Review_policies_error)
  with r show ?thesis by simp
qed


section \<open>Readiness, failing checks, sorted messages\<close>

lemma Ready_conditions_set:
  "set (Ready_conditions conditions crp acc) =
     set acc \<union> (if list_ex (\<lambda>condition. cond_Type condition = CertificateRequestPolicyConditionReady
                                \<and> cond_Status condition = ConditionTrue) conditions
                 then {crp} else {})"
  by (induction conditions arbitrary: acc) auto

lemma Ready_loop_set: "set (Ready_loop policies acc) = set acc \<union> {p \<in> set policies. is_ready p}"
  by (induction policies arbitrary: acc) (auto simp: Ready_conditions_set is_ready_def)

lemma RBACBound_fails:
  assumes "\<exists>p \<in> set policies. check_fails cl cr p"
  shows "\<exists>err. fst (RBACBound cl cr policies) = Inl err"
proof -
  from split_list_first_prop [OF assms] obtain pre crp post where
    split: "policies = pre @ crp # post" "check_fails cl cr crp"
      "\<forall>p \<in> set pre. \<not> check_fails cl cr p"
    by blast
  from split(2) obtain err where "client_Create cl (use_review cr crp) = Inl err"
    by (cases "client_Create cl (use_review cr crp)") (auto simp: check_fails_def)
  with split(1,3) show ?thesis
    by (simp add: RBACBound_def RBACBound_loop_error)
qed

lemma Ready_conditions_replicate:
  "Ready_conditions conditions crp acc =
     acc @ replicate
       (length (filter (\<lambda>condition. cond_Type condition = CertificateRequestPolicyConditionReady
                          \<and> cond_Status condition = ConditionTrue) conditions)) crp"
  by (induction conditions arbitrary: acc) (simp_all add: replicate_app_Cons_same)

lemma Ready_loop_replicate:
  "Ready_loop policies acc =
     acc @ concat (map (\<lambda>crp. replicate (length (ready_conditions crp)) crp) policies)"
  by (induction policies arbitrary: acc)
     (simp_all add: Ready_conditions_replicate ready_conditions_def)

lemma Ready_single_condition:
  assumes "\<forall>crp \<in> set policies. length (ready_conditions crp) \<le> 1"
  shows "Ready cr policies = Inr (filter is_ready policies)"
proof -
  have "concat (map (\<lambda>crp. replicate (length (ready_conditions crp)) crp) policies)
      = filter is_ready policies"
    using assms
  proof (induction policies)
    case Nil
    then show ?case by simp
  next
    case (Cons crp rest)
    then have one: "length (ready_conditions crp) \<le> 1" by simp
    have "is_ready crp \<longleftrightarrow> ready_conditions crp \<noteq> []"
      by (auto simp: is_ready_def ready_conditions_def list_ex_iff filter_empty_conv)
    with one have "replicate (length (ready_conditions crp)) crp = (if is_ready crp then [crp] else [])"
      by (cases "ready_conditions crp") auto
    with Cons show ?case by simp
  qed
  then show ?thesis by (simp add: Ready_def Ready_loop_replicate)
qed

lemma IssuerRefSelector_sub_multiset:
  "IssuerRefSelector cr policies = Inr kept \<Longrightarrow> mset kept \<subseteq># mset policies"
  by (auto simp: IssuerRefSelector_def IssuerRefSelector_loop_filter)

lemma RBACBound_sub_multiset:
  assumes "fst (RBACBound cl cr policies) = Inr kept"
  shows "mset kept \<subseteq># mset policies"
proof (cases "\<exists>p \<in> set policies. check_fails cl cr p")
  case True
  from RBACBound_fails [OF this] assms show ?thesis by auto
next
  case False
  then have "\<forall>p \<in> set policies. \<not> check_fails cl cr p" by simp
  then have "RBACBound cl cr policies =
      (Inr (filter (allowed cl cr) policies), map (use_review cr) policies)"
    by (simp add: RBACBound_def RBACBound_loop_ok)
  with assms show ?thesis by auto
qed

lemma candidates_iff:
  assumes "client_List (client s) = Inr crps"
  shows "candidates s cr = Inr policies \<longleftrightarrow>
    (\<forall>p \<in> set crps. selector_keeps cr p \<longrightarrow> \<not> check_fails (client s) cr p)
    \<and> policies = filter (\<lambda>p. selector_keeps cr p \<and> allowed (client s) cr p) crps"
proof (cases "\<exists>p \<in> set (filter (selector_keeps cr) crps). check_fails (client s) cr p")
  case True
  from RBACBound_fails [OF this] obtain err where
    "fst (RBACBound (client s) cr (filter (selector_keeps cr) crps)) = Inl err" by blast
  with assms have "candidates s cr = Inl err"
    by (simp add: candidates_def boundPolicies_RBACBound issuerRefSelector_filter)
  with True show ?thesis by auto
next
  case False
  then have ok: "\<forall>p \<in> set (filter (selector_keeps cr) crps). \<not> check_fails (client s) cr p"
    by simp
  have "fst (RBACBound (client s) cr (filter (selector_keeps cr) crps))
      = Inr (filter (allowed (client s) cr) (filter (selector_keeps cr) crps))"
    unfolding RBACBound_def RBACBound_loop_ok [OF ok] by simp
  with assms have "candidates s cr
      = Inr (filter (\<lambda>p. selector_keeps cr p \<and> allowed (client s) cr p) crps)"
    by (simp add: candidates_def boundPolicies_RBACBound issuerRefSelector_filter conj_commute)
  with False show ?thesis by auto
qed


lemma Review_Unprocessed_candidates:
  "(\<exists>r. Review quote s cr = Inr r \<and> rr_Result r = ResultUnprocessed)
     \<longleftrightarrow> candidates s cr = Inr []"
proof
  assume "\<exists>r. Review quote s cr = Inr r \<and> rr_Result r = ResultUnprocessed"
  then obtain r where r: "Review quote s cr = Inr r" "rr_Result r = ResultUnprocessed"
    by blast
  show "candidates s cr = Inr []"
  proof (cases "candidates s cr")
    case (Inl err)
    with r(1) Review_candidates_error [of s cr err quote] show ?thesis by auto
  next
    case (Inr policies)
    show ?thesis
    proof (cases "policies = []")
      case True
      with Inr show ?thesis by simp
    next
      case False
      with Inr r(1) have "Review_policies quote (evaluators s) cr policies [] = Inr r"
        by (simp add: Review_candidates)
      with r(2) show ?thesis by (auto dest: Review_policies_not_Unprocessed)
    qed
  qed
next
  assume "candidates s cr = Inr []"
  then show "\<exists>r. Review quote s cr = Inr r \<and> rr_Result r = ResultUnprocessed"
    by (simp add: Review_candidates)
qed

lemma candidates_empty_iff:
  "candidates s cr = Inr [] \<longleftrightarrow>
     (\<exists>crps. client_List (client s) = Inr crps
        \<and> (\<forall>p \<in> set crps. selector_keeps cr p \<longrightarrow> \<not> check_fails (client s) cr p)
        \<and> (\<forall>p \<in> set crps. \<not> (selector_keeps cr p \<and> allowed (client s) cr p)))"
proof (cases "client_List (client s)")
  case (Inl err)
  then show ?thesis by (simp add: candidates_def)
next
  case (Inr crps)
  have "[] = filter (\<lambda>p. selector_keeps cr p \<and> allowed (client s) cr p) crps
      \<longleftrightarrow> (\<forall>p \<in> set crps. \<not> (selector_keeps cr p \<and> allowed (client s) cr p))"
    by (auto simp: filter_empty_conv dest: sym)
  with Inr show ?thesis by (simp add: candidates_iff)
qed

lemma insort_key_policy_message:
  "insort_key pm_name (policy_message evs cr crp) (map (policy_message evs cr) policies)
     = map (policy_message evs cr) (insort_key Name crp policies)"
  by (induction policies) (simp_all add: policy_message_def)

lemma sort_key_policy_message:
  "sort_key pm_name (map (policy_message evs cr) policies)
     = map (policy_message evs cr) (sort_key Name policies)"
  by (induction policies) (simp_all add: insort_key_policy_message)

lemma Review_denied_policies:
  "Review_denied (map (policy_message evs cr) policies) =
     \<lparr>rr_Result = ResultDenied,
      rr_Message = ''No policy approved this request: '' @
        strings_Join
          (map (\<lambda>crp. ''['' @ Name crp @ '': ''
                        @ strings_Join (evaluator_messages evs cr crp) '', '' @ '']'')
             (sort_key Name policies)) '' ''\<rparr>"
  by (simp add: Review_denied_def Let_def sort_key_policy_message policy_message_def comp_def)

lemma sort_key_permuted:
  assumes "mset xs = mset ys" and "inj_on f (set xs)"
  shows "sort_key f xs = sort_key f ys"
proof (rule sort_key_inj_key_eq)
  show "mset xs = mset (sort_key f ys)" using assms(1) by simp
  show "inj_on f (set xs)" by (rule assms(2))
  show "sorted (map f (sort_key f ys))" by simp
qed

lemma Review_Denied_candidates:
  assumes "Review quote s cr = Inr r" and "rr_Result r = ResultDenied"
  obtains policies where "candidates s cr = Inr policies" "policies \<noteq> []"
    "\<forall>p \<in> set policies. denied_by (evaluators s) cr p"
    "r = Review_denied (map (policy_message (evaluators s) cr) policies)"
proof -
  obtain policies where c: "candidates s cr = Inr policies"
    using assms(1) Review_candidates_error [of s cr _ quote] by (cases "candidates s cr") auto
  from c assms have ne: "policies \<noteq> []" by (auto simp: Review_candidates)
  with c assms(1) have p: "Review_policies quote (evaluators s) cr policies [] = Inr r"
    by (simp add: Review_candidates)
  show thesis
  proof (cases policies "evaluators s" cr rule: policies_cases)
    case denied
    with p have "r = Review_denied (map (policy_message (evaluators s) cr) policies)"
      by (simp add: Review_policies_denied)
    with c ne denied show thesis by (rule that)
  next
    case (approved pre crp post)
    with p assms(2) show thesis by (auto simp: Review_policies_approved)
  next
    case (error pre crp post)
    from error(3) obtain err where "Review_evaluators (evaluators s) crp cr False [] = Inl err"
      using Review_evaluators_errors by blast
    with error(1,2) have "Review_policies quote (evaluators s) cr policies [] = Inl err"
      by (simp add: Review_policies_error)
    with p show thesis by simp
  qed
qed


section \<open>Violations of the attribute evaluator\<close>

lemma paths_entry_if: "subseq (map field_path (entry_if b p v a)) [p]"
  by (simp add: entry_if_def)

lemma paths_private_key:
  "subseq (map field_path (private_key_violations key cr))
     [''spec.allowedPrivateKey.allowedAlgorithm'', ''spec.allowedPrivateKey.minSize'',
      ''spec.allowedPrivateKey.maxSize'']"
proof -
  have "subseq (map field_path (private_key_violations key cr))
     ([''spec.allowedPrivateKey.allowedAlgorithm''] @ [''spec.allowedPrivateKey.minSize'']
      @ [''spec.allowedPrivateKey.maxSize''])"
    unfolding private_key_violations_def map_append
    by (intro list_emb_append_mono) (simp_all add: paths_entry_if split: option.splits)
  then show ?thesis by simp
qed

lemma paths_attribute: "subseq (map field_path (attribute_violations crp cr)) attribute_paths"
proof -
  have "subseq (map field_path (attribute_violations crp cr))
     ([''spec.allowedCommonName''] @ [''spec.minDuration''] @ [''spec.allowedDNSNames'']
      @ [''spec.allowedIPAddresses''] @ [''spec.allowedURIs''] @ [''spec.allowedIssuers'']
      @ [''spec.allowedIsCA'']
      @ [''spec.allowedPrivateKey.allowedAlgorithm'', ''spec.allowedPrivateKey.minSize'',
         ''spec.allowedPrivateKey.maxSize''])"
    unfolding attribute_violations_def map_append
    by (intro list_emb_append_mono)
       (simp_all add: paths_entry_if paths_private_key split: option.splits)
  then show ?thesis by (simp add: attribute_paths_def)
qed

lemma entry_if_member:
  "violated \<Longrightarrow> \<lparr>field_path = p, request_value = v, allowed_value = a\<rparr> \<in> set (entry_if violated p v a)"
  by (simp add: entry_if_def)

lemma no_constraints_no_violations: "no_constraints crp \<Longrightarrow> attribute_violations crp cr = []"
  by (auto simp: no_constraints_def attribute_violations_def private_key_violations_def
      split: option.splits)

section \<open>Evaluation of the example data\<close>

lemmas example_defs =
  example_manager_def example_client_def example_policy_def example_request_def
  any_issuer_def allow_all_def name_policy_def ca_policy_def example_answer_def
  failing_evaluator_def common_name_evaluator_def ca_evaluator_def
  example_selector_def other_selector_def

lemma example_candidates:
  "candidates (example_manager crps evs) cr = Inr (filter (selector_keeps cr) crps)"
proof -
  have "\<forall>p \<in> set ps. \<not> check_fails (example_client crps allow_all) cr p" for ps
    by (simp add: check_fails_def example_client_def allow_all_def)
  then have "RBACBound (example_client crps allow_all) cr ps =
      (Inr (filter (allowed (example_client crps allow_all) cr) ps), map (use_review cr) ps)" for ps
    by (simp add: RBACBound_def RBACBound_loop_ok)
  moreover have "allowed (example_client crps allow_all) cr p" for p
    by (simp add: allowed_def example_client_def allow_all_def)
  ultimately show ?thesis
    by (simp add: candidates_def example_manager_def boundPolicies_RBACBound
        issuerRefSelector_filter example_client_def)
qed


lemma test_violations:
  "attribute_violations test_policy test_request =
     [\<lparr>field_path = ''spec.allowedCommonName'', request_value = VString ''test'',
       allowed_value = VString ''not-test''\<rparr>,
      \<lparr>field_path = ''spec.minDuration'', request_value = VDuration 360000000000000,
       allowed_value = VDuration 720000000000000\<rparr>,
      \<lparr>field_path = ''spec.allowedDNSNames'', request_value = VStrings [''foo.bar'', ''example.com''],
       allowed_value = VStrings [''not-foo.bar'']\<rparr>,
      \<lparr>field_path = ''spec.allowedIPAddresses'', request_value = VStrings [''1.2.3.4''],
       allowed_value = VStrings [''5.6.7.8'']\<rparr>,
      \<lparr>field_path = ''spec.allowedURIs'', request_value = VStrings [''hello.world''],
       allowed_value = VStrings [''world.hello'']\<rparr>,
      \<lparr>field_path = ''spec.allowedIssuers'',
       request_value = VIssuer \<lparr>ref_Name = ''my-issuer'', ref_Kind = ''my-kind'', ref_Group = ''my-group''\<rparr>,
       allowed_value = VIssuers [\<lparr>ref_Name = ''not-my-issuer'', ref_Kind = ''not-my-kind'',
                 ref_Group = ''not-my-group''\<rparr>]\<rparr>,
      \<lparr>field_path = ''spec.allowedIsCA'', request_value = VBool True, allowed_value = VBool False\<rparr>,
      \<lparr>field_path = ''spec.allowedPrivateKey.allowedAlgorithm'', request_value = VAlgorithm RSA,
       allowed_value = VAlgorithm ECDSA\<rparr>]"
  by (simp add: attribute_violations_def private_key_violations_def entry_if_def
      all_match_some_def matches_some_def issuer_matches_def
      test_policy_def test_request_def example_policy_def example_request_def)

section \<open>Selection\<close>

text \<open>
  C10. The private selection functions of the manager behave as the public predicates:
  for every request and policy list, \<^verbatim>\<open>issuerRefSelector\<close> returns the list that
  \<^verbatim>\<open>predicate.IssuerRefSelector\<close> returns (which never fails), and
  \<^verbatim>\<open>boundPolicies\<close> returns what the predicate \<^verbatim>\<open>predicate.RBACBound\<close> of the
  manager's client returns: the same list or the same error, after the same checks.
\<close>

theorem private_selection_equals_predicates:
  "IssuerRefSelector cr policies = Inr (issuerRefSelector cr policies)
   \<and> boundPolicies s cr policies = RBACBound (client s) cr policies"
  by (simp add: IssuerRefSelector_def issuerRefSelector_def IssuerRefSelector_loop_filter
      issuerRefSelector_loop_filter boundPolicies_RBACBound)

theorem private_selection_equals_predicates_witness:
  "IssuerRefSelector example_request [example_policy ''a'' any_issuer []]
     = Inr (issuerRefSelector example_request [example_policy ''a'' any_issuer []])
   \<and> boundPolicies \<lparr>client = example_client [] example_answer, evaluators = []\<rparr>
        example_request [example_policy ''a'' any_issuer []]
     = RBACBound (example_client [] example_answer)
        example_request [example_policy ''a'' any_issuer []]"
  using private_selection_equals_predicates
    [of example_request "[example_policy ''a'' any_issuer []]"
      "\<lparr>client = example_client [] example_answer, evaluators = []\<rparr>"]
  by simp

text \<open>
  C8. The issuer-reference selector keeps a policy exactly when each of the selector's
  name, kind and group is unset or matches, as a wildcard pattern, the corresponding
  field of the request's issuer reference. In a pattern \<^verbatim>\<open>*\<close> stands for any run of
  characters (the empty one too) and every other character for itself.
\<close>

theorem IssuerRefSelector_keeps_matching:
  "IssuerRefSelector cr policies = Inr (filter (selector_keeps cr) policies)
   \<and> issuerRefSelector cr policies = filter (selector_keeps cr) policies
   \<and> (selector_keeps cr crp \<longleftrightarrow>
        (sel_Name (Spec_IssuerRefSelector crp) = None
           \<or> (\<exists>pat. sel_Name (Spec_IssuerRefSelector crp) = Some pat
                 \<and> WildcardMatchs pat (ref_Name (Spec_IssuerRef cr))))
        \<and> (sel_Kind (Spec_IssuerRefSelector crp) = None
           \<or> (\<exists>pat. sel_Kind (Spec_IssuerRefSelector crp) = Some pat
                 \<and> WildcardMatchs pat (ref_Kind (Spec_IssuerRef cr))))
        \<and> (sel_Group (Spec_IssuerRefSelector crp) = None
           \<or> (\<exists>pat. sel_Group (Spec_IssuerRefSelector crp) = Some pat
                 \<and> WildcardMatchs pat (ref_Group (Spec_IssuerRef cr)))))
   \<and> (WildcardMatchs [] str \<longleftrightarrow> str = [])
   \<and> (WildcardMatchs (CHR ''*'' # pattern) str \<longleftrightarrow>
        (\<exists>run rest. str = run @ rest \<and> WildcardMatchs pattern rest))
   \<and> (c \<noteq> CHR ''*'' \<longrightarrow>
        (WildcardMatchs (c # pattern) str \<longleftrightarrow>
           (\<exists>rest. str = c # rest \<and> WildcardMatchs pattern rest)))"
proof -
  have keeps: "field_matches sel v \<longleftrightarrow> sel = None \<or> (\<exists>pat. sel = Some pat \<and> WildcardMatchs pat v)"
    for sel v
    by (cases sel) (simp_all add: field_matches_def)
  show ?thesis
    using WildcardMatchs_star [of pattern str] WildcardMatchs_char [of c pattern str]
    by (simp add: IssuerRefSelector_def IssuerRefSelector_loop_filter issuerRefSelector_filter
        selector_keeps_def keeps WildcardMatchs_Nil)
qed

theorem IssuerRefSelector_keeps_matching_witness:
  "IssuerRefSelector example_request
     [example_policy ''a'' example_selector [], example_policy ''b'' other_selector [],
      example_policy ''c'' any_issuer []]
   = Inr [example_policy ''a'' example_selector [], example_policy ''c'' any_issuer []]
   \<and> CHR ''m'' \<noteq> CHR ''*''
   \<and> WildcardMatchs ''my-*'' ''my-issuer''"
  using IssuerRefSelector_keeps_matching
    [where cr = example_request
       and policies = "[example_policy ''a'' example_selector [],
                        example_policy ''b'' other_selector [],
                        example_policy ''c'' any_issuer []]"
       and crp = "example_policy ''a'' example_selector []"
       and pattern = "''y-*''" and str = "''my-issuer''" and c = "CHR ''m''"]
  by (simp add: selector_keeps_def field_matches_def example_policy_def example_request_def
      example_selector_def other_selector_def any_issuer_def)

text \<open>
  C6. The RBAC-bound filter creates one subject access review per candidate policy, in
  the order of the list: for the verb \<^verbatim>\<open>use\<close> on the policy's name, with the
  requester's username, groups, UID and extra attributes. When no check fails the
  result is the list of the policies whose check is allowed, the others being dropped
  without error. The first check that fails ends the filter: no later policy is
  checked, there is no policy list, and the error returned wraps the error of the check
  (\<^verbatim>\<open>errors.Unwrap\<close> gives it back). \<^verbatim>\<open>boundPolicies\<close> of the manager does the
  same.
\<close>

theorem RBACBound_one_check_per_policy:
  "((\<forall>p \<in> set policies. \<not> check_fails cl cr p) \<longrightarrow>
      RBACBound cl cr policies =
        (Inr (filter (allowed cl cr) policies), map (use_review cr) policies))
   \<and> ((\<forall>p \<in> set pre. \<not> check_fails cl cr p) \<and> client_Create cl (use_review cr crp) = Inl err \<longrightarrow>
        (\<exists>err'. RBACBound cl cr (pre @ crp # post) =
                  (Inl err', map (use_review cr) (pre @ [crp]))
               \<and> Unwrap err' = Some err
               \<and> err' = Errorf ''failed to create subjectaccessreview: '' err))
   \<and> boundPolicies s cr policies = RBACBound (client s) cr policies
   \<and> (allowed cl cr crp \<longleftrightarrow> client_Create cl (use_review cr crp) = Inr True)
   \<and> use_review cr crp =
        \<lparr>sar_User = Spec_Username cr, sar_Groups = Spec_Groups cr,
         sar_Extra = Spec_Extra cr, sar_UID = Spec_UID cr,
         sar_ResourceAttributes =
           \<lparr>ra_Group = ''policy.cert-manager.io'',
            ra_Resource = ''certificaterequestpolicies'',
            ra_Name = Name crp, ra_Namespace = Namespace cr, ra_Verb = ''use''\<rparr>\<rparr>"
proof -
  have ok: "(\<forall>p \<in> set policies. \<not> check_fails cl cr p) \<longrightarrow>
      RBACBound cl cr policies =
        (Inr (filter (allowed cl cr) policies), map (use_review cr) policies)"
    by (simp add: RBACBound_def RBACBound_loop_ok)
  have err: "(\<forall>p \<in> set pre. \<not> check_fails cl cr p) \<and> client_Create cl (use_review cr crp) = Inl err \<longrightarrow>
        (\<exists>err'. RBACBound cl cr (pre @ crp # post) =
                  (Inl err', map (use_review cr) (pre @ [crp]))
               \<and> Unwrap err' = Some err
               \<and> err' = Errorf ''failed to create subjectaccessreview: '' err)"
    by (simp add: RBACBound_def RBACBound_loop_error)
  show ?thesis
    using ok err by (simp add: boundPolicies_RBACBound allowed_def use_review_def)
qed

theorem RBACBound_one_check_per_policy_witness:
  "RBACBound (example_client [] example_answer) example_request
     [example_policy ''a'' any_issuer [], example_policy ''b'' any_issuer []]
   = (Inr [example_policy ''a'' any_issuer []],
      [use_review example_request (example_policy ''a'' any_issuer []),
       use_review example_request (example_policy ''b'' any_issuer [])])
   \<and> RBACBound (example_client [] example_answer) example_request
     [example_policy ''a'' any_issuer [], example_policy ''c'' any_issuer [],
      example_policy ''b'' any_issuer []]
   = (Inl (Errorf ''failed to create subjectaccessreview: '' (Opaque ''connection refused'')),
      [use_review example_request (example_policy ''a'' any_issuer []),
       use_review example_request (example_policy ''c'' any_issuer [])])"
proof -
  let ?cl = "example_client [] example_answer"
  let ?a = "example_policy ''a'' any_issuer []"
  let ?b = "example_policy ''b'' any_issuer []"
  let ?c = "example_policy ''c'' any_issuer []"
  have a: "\<not> check_fails ?cl example_request ?a"
    by (simp add: check_fails_def example_client_def example_answer_def use_review_def
        example_policy_def)
  have b: "\<not> check_fails ?cl example_request ?b"
    by (simp add: check_fails_def example_client_def example_answer_def use_review_def
        example_policy_def)
  have c: "client_Create ?cl (use_review example_request ?c) = Inl (Opaque ''connection refused'')"
    by (simp add: example_client_def example_answer_def use_review_def example_policy_def)
  have keep: "allowed ?cl example_request ?a" "\<not> allowed ?cl example_request ?b"
    by (simp_all add: allowed_def example_client_def example_answer_def use_review_def
        example_policy_def)
  show ?thesis
    using a b c keep
      RBACBound_one_check_per_policy
        [where cl = ?cl and cr = example_request and policies = "[?a, ?b]"
           and pre = "[?a]" and crp = ?c and post = "[?b]"
           and err = "Opaque ''connection refused''"]
    by simp
qed

text \<open>
  C7. The property that every selection predicate returns a sub-multiset of its input
  holds of \<^verbatim>\<open>IssuerRefSelector\<close> and \<^verbatim>\<open>RBACBound\<close> (lemmas
  \<open>IssuerRefSelector_sub_multiset\<close> and \<open>RBACBound_sub_multiset\<close>) and fails for
  \<^verbatim>\<open>Ready\<close>, which appends a policy once for each of its conditions that has type
  \<^verbatim>\<open>Ready\<close> and status \<^verbatim>\<open>True\<close> (lemma \<open>Ready_loop_replicate\<close>): a
  policy listed once with two such conditions is returned twice.
\<close>

theorem Ready_duplicates_policy:
  "Ready example_request [example_policy ''a'' any_issuer [ready_true, ready_true]]
     = Inr [example_policy ''a'' any_issuer [ready_true, ready_true],
            example_policy ''a'' any_issuer [ready_true, ready_true]]
   \<and> \<not> mset [example_policy ''a'' any_issuer [ready_true, ready_true],
            example_policy ''a'' any_issuer [ready_true, ready_true]]
        \<subseteq># mset [example_policy ''a'' any_issuer [ready_true, ready_true]]"
  by (simp add: Ready_def example_policy_def ready_true_def
      CertificateRequestPolicyConditionReady_def ConditionTrue_def)

section \<open>The decision\<close>

text \<open>
  C2. As stated (\<^verbatim>\<open>Review\<close> returns \<^verbatim>\<open>ResultUnprocessed\<close>, instead of a denial,
  whenever no listed policy survives the selection predicates, readiness among them)
  the property fails: \<^verbatim>\<open>Review\<close> does not consult readiness. Below, the only
  listed policy has no condition, so \<^verbatim>\<open>Ready\<close> drops it and no policy survives
  the three predicates; it matches the selector, the requester is authorized to use it,
  it is evaluated, and the review ends with a denial.
\<close>

theorem Review_denies_unready_policy:
  "client_List (client (example_manager [name_policy ''a'' ''x''] [common_name_evaluator]))
     = Inr [name_policy ''a'' ''x'']
   \<and> \<not> is_ready (name_policy ''a'' ''x'')
   \<and> Ready example_request [name_policy ''a'' ''x''] = Inr []
   \<and> Review quote_plain (example_manager [name_policy ''a'' ''x''] [common_name_evaluator])
       example_request
     = Inr \<lparr>rr_Result = ResultDenied,
            rr_Message = ''No policy approved this request: [a: common name must be x]''\<rparr>"
  by (simp add: is_ready_def Ready_def Review_def issuerRefSelector_def boundPolicies_def
      Let_def Review_denied_def example_defs)

text \<open>
  C2, amended. \<^verbatim>\<open>Review\<close> returns \<^verbatim>\<open>ResultUnprocessed\<close> if and only if the
  listing succeeds, no authorization check of a listed policy that matches the
  issuer-reference selector fails, and no listed policy both matches the selector and is
  one the requester is authorized to use; the readiness of the policies is not
  consulted. When the listing returns no policy the message says that no policies exist;
  when policies are listed and none of them matches the selector and is authorized, it
  says that none is bound or applicable. In both cases the result is
  \<^verbatim>\<open>ResultUnprocessed\<close>, not a denial.
\<close>

theorem Review_Unprocessed_iff:
  "((\<exists>r. Review quote s cr = Inr r \<and> rr_Result r = ResultUnprocessed) \<longleftrightarrow>
      (\<exists>listed. client_List (client s) = Inr listed
         \<and> (\<forall>p \<in> set listed. selector_keeps cr p \<longrightarrow> \<not> check_fails (client s) cr p)
         \<and> (\<forall>p \<in> set listed. \<not> (selector_keeps cr p \<and> allowed (client s) cr p))))
   \<and> (client_List (client s) = Inr [] \<longrightarrow>
        Review quote s cr =
          Inr \<lparr>rr_Result = ResultUnprocessed,
               rr_Message = ''No CertificateRequestPolicies exist''\<rparr>)
   \<and> (client_List (client s) = Inr crps \<and> crps \<noteq> []
        \<and> (\<forall>p \<in> set crps. selector_keeps cr p \<longrightarrow> \<not> check_fails (client s) cr p)
        \<and> (\<forall>p \<in> set crps. \<not> (selector_keeps cr p \<and> allowed (client s) cr p)) \<longrightarrow>
        Review quote s cr =
          Inr \<lparr>rr_Result = ResultUnprocessed,
               rr_Message = ''No CertificateRequestPolicies bound or applicable''\<rparr>)"
proof -
  have iff: "(\<exists>r. Review quote s cr = Inr r \<and> rr_Result r = ResultUnprocessed) \<longleftrightarrow>
      (\<exists>listed. client_List (client s) = Inr listed
         \<and> (\<forall>p \<in> set listed. selector_keeps cr p \<longrightarrow> \<not> check_fails (client s) cr p)
         \<and> (\<forall>p \<in> set listed. \<not> (selector_keeps cr p \<and> allowed (client s) cr p)))"
    unfolding Review_Unprocessed_candidates by (rule candidates_empty_iff)
  have none: "client_List (client s) = Inr [] \<longrightarrow>
        Review quote s cr =
          Inr \<lparr>rr_Result = ResultUnprocessed,
               rr_Message = ''No CertificateRequestPolicies exist''\<rparr>"
    by (simp add: Review_def)
  have some: "client_List (client s) = Inr crps \<and> crps \<noteq> []
        \<and> (\<forall>p \<in> set crps. selector_keeps cr p \<longrightarrow> \<not> check_fails (client s) cr p)
        \<and> (\<forall>p \<in> set crps. \<not> (selector_keeps cr p \<and> allowed (client s) cr p)) \<longrightarrow>
        Review quote s cr =
          Inr \<lparr>rr_Result = ResultUnprocessed,
               rr_Message = ''No CertificateRequestPolicies bound or applicable''\<rparr>"
  proof (intro impI, elim conjE)
    assume l: "client_List (client s) = Inr crps" and ne: "crps \<noteq> []"
      and ok: "\<forall>p \<in> set crps. selector_keeps cr p \<longrightarrow> \<not> check_fails (client s) cr p"
      and no: "\<forall>p \<in> set crps. \<not> (selector_keeps cr p \<and> allowed (client s) cr p)"
    from l ok no have "candidates s cr = Inr []"
      unfolding candidates_empty_iff by blast
    with l ne show "Review quote s cr =
          Inr \<lparr>rr_Result = ResultUnprocessed,
               rr_Message = ''No CertificateRequestPolicies bound or applicable''\<rparr>"
      by (simp add: Review_candidates)
  qed
  from iff none some show ?thesis by blast
qed

theorem Review_Unprocessed_iff_witness:
  "Review quote_plain (example_manager [] [common_name_evaluator]) example_request
     = Inr \<lparr>rr_Result = ResultUnprocessed, rr_Message = ''No CertificateRequestPolicies exist''\<rparr>
   \<and> Review quote_plain
       \<lparr>client = example_client
          [example_policy ''b'' any_issuer [], example_policy ''a'' other_selector []]
          example_answer,
        evaluators = [common_name_evaluator]\<rparr> example_request
     = Inr \<lparr>rr_Result = ResultUnprocessed,
            rr_Message = ''No CertificateRequestPolicies bound or applicable''\<rparr>
   \<and> \<not> (\<exists>r. Review quote_plain
              \<lparr>client = example_client
                 [example_policy ''b'' any_issuer [], example_policy ''a'' any_issuer []]
                 example_answer,
               evaluators = [common_name_evaluator]\<rparr> example_request = Inr r
            \<and> rr_Result r = ResultUnprocessed)
   \<and> Review quote_plain
       \<lparr>client = example_client
          [example_policy ''b'' any_issuer [], example_policy ''a'' any_issuer []]
          example_answer,
        evaluators = [common_name_evaluator]\<rparr> example_request
     = Inr \<lparr>rr_Result = ResultApproved,
            rr_Message = ''Approved by CertificateRequestPolicy: '' @ quote_plain ''a''\<rparr>"
proof -
  let ?none = "[example_policy ''b'' any_issuer [], example_policy ''a'' other_selector []]"
  let ?some = "[example_policy ''b'' any_issuer [], example_policy ''a'' any_issuer []]"
  let ?s0 = "example_manager [] [common_name_evaluator]"
  let ?s1 = "\<lparr>client = example_client ?none example_answer,
              evaluators = [common_name_evaluator]\<rparr>"
  let ?s2 = "\<lparr>client = example_client ?some example_answer,
              evaluators = [common_name_evaluator]\<rparr>"
  have l0: "client_List (client ?s0) = Inr []"
    by (simp add: example_manager_def example_client_def)
  have one: "Review quote_plain ?s0 example_request
     = Inr \<lparr>rr_Result = ResultUnprocessed, rr_Message = ''No CertificateRequestPolicies exist''\<rparr>"
    using l0 Review_Unprocessed_iff [of quote_plain ?s0 example_request] by simp
  have l1: "client_List (client ?s1) = Inr ?none" "?none \<noteq> []"
    by (simp_all add: example_client_def)
  have ok1: "\<forall>p \<in> set ?none. selector_keeps example_request p
      \<longrightarrow> \<not> check_fails (client ?s1) example_request p"
    by (simp add: selector_keeps_def field_matches_def check_fails_def use_review_def
        example_defs)
  have no1: "\<forall>p \<in> set ?none. \<not> (selector_keeps example_request p
      \<and> allowed (client ?s1) example_request p)"
    by (simp add: selector_keeps_def field_matches_def allowed_def use_review_def
        example_defs)
  have two: "Review quote_plain ?s1 example_request
     = Inr \<lparr>rr_Result = ResultUnprocessed,
            rr_Message = ''No CertificateRequestPolicies bound or applicable''\<rparr>"
    using l1 ok1 no1
      Review_Unprocessed_iff [where quote = quote_plain and s = ?s1 and cr = example_request
        and crps = ?none]
    by blast
  have l2: "client_List (client ?s2) = Inr ?some"
    by (simp add: example_client_def)
  have survives: "selector_keeps example_request (example_policy ''a'' any_issuer [])
      \<and> allowed (client ?s2) example_request (example_policy ''a'' any_issuer [])"
    by (simp add: selector_keeps_def field_matches_def allowed_def use_review_def
        example_defs)
  have "\<not> (\<exists>listed. client_List (client ?s2) = Inr listed
         \<and> (\<forall>p \<in> set listed. selector_keeps example_request p
               \<longrightarrow> \<not> check_fails (client ?s2) example_request p)
         \<and> (\<forall>p \<in> set listed. \<not> (selector_keeps example_request p
               \<and> allowed (client ?s2) example_request p)))"
  proof
    assume "\<exists>listed. client_List (client ?s2) = Inr listed
         \<and> (\<forall>p \<in> set listed. selector_keeps example_request p
               \<longrightarrow> \<not> check_fails (client ?s2) example_request p)
         \<and> (\<forall>p \<in> set listed. \<not> (selector_keeps example_request p
               \<and> allowed (client ?s2) example_request p))"
    then obtain listed where "client_List (client ?s2) = Inr listed"
      and no: "\<forall>p \<in> set listed. \<not> (selector_keeps example_request p
               \<and> allowed (client ?s2) example_request p)"
      by blast
    with l2 have "listed = ?some" by simp
    with no survives show False by simp
  qed
  then have three: "\<not> (\<exists>r. Review quote_plain ?s2 example_request = Inr r
            \<and> rr_Result r = ResultUnprocessed)"
    using Review_Unprocessed_iff [where quote = quote_plain and s = ?s2 and cr = example_request]
    by blast
  have four: "Review quote_plain ?s2 example_request
     = Inr \<lparr>rr_Result = ResultApproved,
            rr_Message = ''Approved by CertificateRequestPolicy: '' @ quote_plain ''a''\<rparr>"
    by (simp add: Review_def issuerRefSelector_def boundPolicies_def Let_def example_defs)
  from one two three four show ?thesis by blast
qed

text \<open>
  C5. An error of the policy listing, of an authorization check or of an evaluator
  ends \<^verbatim>\<open>Review\<close> at once with that error and no decision: the listing's and the
  evaluator's error are returned as they are, the error of a check is returned wrapped
  (\<^verbatim>\<open>errors.Is\<close> finds it). Within one policy an evaluator that denies does not
  stop the loop: the evaluators after it are still run, every evaluator's message is
  collected, and an error of a later evaluator is still returned.
\<close>

theorem Review_error_aborts:
  "(client_List (client s) = Inl err \<longrightarrow> Review quote s cr = Inl err)
   \<and> (client_List (client s) = Inr crps \<and> issuerRefSelector cr crps = pre @ crp # post
        \<and> (\<forall>p \<in> set pre. \<not> check_fails (client s) cr p)
        \<and> client_Create (client s) (use_review cr crp) = Inl err \<longrightarrow>
        (\<exists>err'. Review quote s cr = Inl err' \<and> errors_Is err' err
               \<and> err' = Errorf ''failed to determine bound policies: ''
                          (Errorf ''failed to create subjectaccessreview: '' err)))
   \<and> (candidates s cr = Inr (pre @ crp # post)
        \<and> (\<forall>p \<in> set pre. denied_by (evaluators s) cr p)
        \<and> evaluators s = before @ ev # after
        \<and> \<not> evaluator_errors before cr crp \<and> ev crp cr = Inl err \<longrightarrow>
        Review quote s cr = Inl err)
   \<and> (\<not> evaluator_errors evs cr crp \<longrightarrow>
        Review_evaluators evs crp cr False [] =
          Inr (\<not> fully_satisfies evs cr crp, evaluator_messages evs cr crp)
        \<and> length (evaluator_messages evs cr crp) = length evs)"
proof -
  have listing: "client_List (client s) = Inl err \<longrightarrow> Review quote s cr = Inl err"
    by (simp add: Review_def)
  have check: "client_List (client s) = Inr crps \<and> issuerRefSelector cr crps = pre @ crp # post
        \<and> (\<forall>p \<in> set pre. \<not> check_fails (client s) cr p)
        \<and> client_Create (client s) (use_review cr crp) = Inl err \<longrightarrow>
        (\<exists>err'. Review quote s cr = Inl err' \<and> errors_Is err' err
               \<and> err' = Errorf ''failed to determine bound policies: ''
                          (Errorf ''failed to create subjectaccessreview: '' err))"
  proof (intro impI, elim conjE)
    assume l: "client_List (client s) = Inr crps"
      and sel: "issuerRefSelector cr crps = pre @ crp # post"
      and pre: "\<forall>p \<in> set pre. \<not> check_fails (client s) cr p"
      and e: "client_Create (client s) (use_review cr crp) = Inl err"
    from sel have ne: "crps \<noteq> []" by (auto simp: issuerRefSelector_filter)
    from pre e have "fst (boundPolicies s cr (pre @ crp # post)) =
        Inl (Errorf ''failed to create subjectaccessreview: '' err)"
      by (simp add: boundPolicies_RBACBound RBACBound_def RBACBound_loop_error)
    with l ne sel show "\<exists>err'. Review quote s cr = Inl err' \<and> errors_Is err' err
               \<and> err' = Errorf ''failed to determine bound policies: ''
                          (Errorf ''failed to create subjectaccessreview: '' err)"
      by (simp add: Review_def Let_def errors_Is_refl)
  qed
  have evaluator: "candidates s cr = Inr (pre @ crp # post)
        \<and> (\<forall>p \<in> set pre. denied_by (evaluators s) cr p)
        \<and> evaluators s = before @ ev # after
        \<and> \<not> evaluator_errors before cr crp \<and> ev crp cr = Inl err \<longrightarrow>
        Review quote s cr = Inl err"
  proof (intro impI, elim conjE)
    assume c: "candidates s cr = Inr (pre @ crp # post)"
      and pre: "\<forall>p \<in> set pre. denied_by (evaluators s) cr p"
      and evs: "evaluators s = before @ ev # after"
      and before: "\<not> evaluator_errors before cr crp" and e: "ev crp cr = Inl err"
    from before e evs have "Review_evaluators (evaluators s) crp cr False [] = Inl err"
      by (simp add: Review_evaluators_error)
    with pre have "Review_policies quote (evaluators s) cr (pre @ crp # post) [] = Inl err"
      by (rule Review_policies_error)
    with c show "Review quote s cr = Inl err" by (simp add: Review_candidates)
  qed
  have run_all: "\<not> evaluator_errors evs cr crp \<longrightarrow>
        Review_evaluators evs crp cr False [] =
          Inr (\<not> fully_satisfies evs cr crp, evaluator_messages evs cr crp)
        \<and> length (evaluator_messages evs cr crp) = length evs"
    by (simp add: Review_evaluators_no_error evaluator_messages_def)
  from listing check evaluator run_all show ?thesis by blast
qed

theorem Review_error_aborts_witness:
  "Review quote_plain failing_list_manager example_request = Inl (Opaque ''list failed'')
   \<and> Review quote_plain
       \<lparr>client = example_client
          [example_policy ''a'' any_issuer [], example_policy ''c'' any_issuer [],
           example_policy ''b'' any_issuer []] example_answer,
        evaluators = [common_name_evaluator]\<rparr> example_request
     = Inl (Errorf ''failed to determine bound policies: ''
             (Errorf ''failed to create subjectaccessreview: '' (Opaque ''connection refused'')))
   \<and> Review quote_plain
       (example_manager
          [name_policy ''a'' ''x'', name_policy ''broken'' ''x'', example_policy ''open'' any_issuer []]
          [common_name_evaluator, failing_evaluator]) example_request
     = Inl (Opaque ''evaluator failed'')
   \<and> Review_evaluators [common_name_evaluator, ca_evaluator] (ca_policy ''a'' ''x'')
       example_request False []
     = Inr (True, [''common name must be x'', ''CA flag not allowed''])"
proof -
  let ?a = "example_policy ''a'' any_issuer []"
  let ?b = "example_policy ''b'' any_issuer []"
  let ?c = "example_policy ''c'' any_issuer []"
  let ?s2 = "\<lparr>client = example_client [?a, ?c, ?b] example_answer,
              evaluators = [common_name_evaluator]\<rparr>"
  let ?s3 = "example_manager
          [name_policy ''a'' ''x'', name_policy ''broken'' ''x'', example_policy ''open'' any_issuer []]
          [common_name_evaluator, failing_evaluator]"
  let ?evs = "[common_name_evaluator, ca_evaluator]"
  have one: "Review quote_plain failing_list_manager example_request = Inl (Opaque ''list failed'')"
    using Review_error_aborts
      [where s = failing_list_manager and err = "Opaque ''list failed''" and quote = quote_plain
         and cr = example_request]
    by (simp add: failing_list_manager_def)
  have "issuerRefSelector example_request [?a, ?c, ?b] = [?a] @ ?c # [?b]"
    by (simp add: issuerRefSelector_filter selector_keeps_def field_matches_def example_defs)
  moreover have "\<forall>p \<in> set [?a]. \<not> check_fails (client ?s2) example_request p"
    by (simp add: check_fails_def use_review_def example_defs)
  moreover have "client_Create (client ?s2) (use_review example_request ?c)
      = Inl (Opaque ''connection refused'')"
    by (simp add: use_review_def example_defs)
  moreover have "client_List (client ?s2) = Inr [?a, ?c, ?b]"
    by (simp add: example_defs)
  ultimately have two: "Review quote_plain ?s2 example_request
     = Inl (Errorf ''failed to determine bound policies: ''
             (Errorf ''failed to create subjectaccessreview: '' (Opaque ''connection refused'')))"
    using Review_error_aborts
      [where s = ?s2 and crps = "[?a, ?c, ?b]" and pre = "[?a]" and crp = ?c and post = "[?b]"
         and err = "Opaque ''connection refused''" and quote = quote_plain
         and cr = example_request]
    by simp
  have "candidates ?s3 example_request
      = Inr ([name_policy ''a'' ''x''] @ name_policy ''broken'' ''x''
              # [example_policy ''open'' any_issuer []])"
    unfolding example_candidates
    by (simp add: selector_keeps_def field_matches_def example_defs)
  moreover have "\<forall>p \<in> set [name_policy ''a'' ''x''].
      denied_by (evaluators ?s3) example_request p"
    by (simp add: denied_by_def evaluator_errors_def fully_satisfies_def returns_NotDenied_def
        example_defs)
  moreover have "evaluators ?s3 = [common_name_evaluator] @ failing_evaluator # []"
    by (simp add: example_defs)
  moreover have "\<not> evaluator_errors [common_name_evaluator] example_request
      (name_policy ''broken'' ''x'')"
    by (simp add: evaluator_errors_def example_defs)
  moreover have "failing_evaluator (name_policy ''broken'' ''x'') example_request
      = Inl (Opaque ''evaluator failed'')"
    by (simp add: example_defs)
  ultimately have three: "Review quote_plain ?s3 example_request = Inl (Opaque ''evaluator failed'')"
    using Review_error_aborts
      [where s = ?s3 and pre = "[name_policy ''a'' ''x'']" and crp = "name_policy ''broken'' ''x''"
         and post = "[example_policy ''open'' any_issuer []]"
         and before = "[common_name_evaluator]" and ev = failing_evaluator and after = "[]"
         and err = "Opaque ''evaluator failed''" and quote = quote_plain
         and cr = example_request]
    by simp
  have "\<not> evaluator_errors ?evs example_request (ca_policy ''a'' ''x'')"
    by (simp add: evaluator_errors_def example_defs)
  then have four: "Review_evaluators ?evs (ca_policy ''a'' ''x'') example_request False []
     = Inr (True, [''common name must be x'', ''CA flag not allowed''])"
    using Review_error_aborts
      [where evs = ?evs and crp = "ca_policy ''a'' ''x''" and cr = example_request]
    by (simp add: fully_satisfies_def returns_NotDenied_def evaluator_messages_def example_defs)
  from one two three four show ?thesis by blast
qed

text \<open>
  C1. As stated (\<^verbatim>\<open>Review\<close> returns \<^verbatim>\<open>ResultApproved\<close> if and only if some policy
  surviving selection has every registered evaluator return \<^verbatim>\<open>ResultNotDenied\<close>)
  the property fails when an evaluator returns an error for a policy listed before the
  first such policy: \<^verbatim>\<open>Review\<close> then returns that error. Below, the policy named
  open survives selection and satisfies the only evaluator, and the review ends with the
  error the evaluator returns for the policy listed before it.
\<close>

theorem Review_error_before_approval:
  "candidates (example_manager [example_policy ''broken'' any_issuer [], example_policy ''open'' any_issuer []]
      [failing_evaluator]) example_request
    = Inr [example_policy ''broken'' any_issuer [], example_policy ''open'' any_issuer []]
   \<and> fully_satisfies [failing_evaluator] example_request (example_policy ''open'' any_issuer [])
   \<and> Review quote_plain
       (example_manager [example_policy ''broken'' any_issuer [], example_policy ''open'' any_issuer []]
          [failing_evaluator]) example_request
     = Inl (Opaque ''evaluator failed'')"
proof -
  have "candidates (example_manager [example_policy ''broken'' any_issuer [], example_policy ''open'' any_issuer []]
      [failing_evaluator]) example_request
    = Inr [example_policy ''broken'' any_issuer [], example_policy ''open'' any_issuer []]"
    unfolding example_candidates
    by (simp add: selector_keeps_def field_matches_def example_defs)
  moreover have "fully_satisfies [failing_evaluator] example_request (example_policy ''open'' any_issuer [])"
    by (simp add: fully_satisfies_def returns_NotDenied_def example_defs)
  moreover have "Review quote_plain
       (example_manager [example_policy ''broken'' any_issuer [], example_policy ''open'' any_issuer []]
          [failing_evaluator]) example_request
     = Inl (Opaque ''evaluator failed'')"
    by (simp add: Review_def issuerRefSelector_def boundPolicies_def Let_def example_defs)
  ultimately show ?thesis by blast
qed

text \<open>
  C1, amended. \<^verbatim>\<open>Review\<close> returns \<^verbatim>\<open>ResultApproved\<close> if and only if some policy
  surviving selection has every registered evaluator return \<^verbatim>\<open>ResultNotDenied\<close> and
  no evaluator returns an error for a surviving policy listed before the first such
  policy. \<^verbatim>\<open>Review\<close> stops at that first policy, whatever the evaluators would say
  of the policies after it, and the message names it.
\<close>

theorem Review_Approved_iff:
  "(Review quote s cr = Inr r \<and> rr_Result r = ResultApproved) \<longleftrightarrow>
     (\<exists>pre crp post.
        candidates s cr = Inr (pre @ crp # post)
        \<and> (\<forall>p \<in> set pre. \<not> fully_satisfies (evaluators s) cr p
                          \<and> \<not> evaluator_errors (evaluators s) cr p)
        \<and> fully_satisfies (evaluators s) cr crp
        \<and> r = \<lparr>rr_Result = ResultApproved,
                rr_Message = ''Approved by CertificateRequestPolicy: '' @ quote (Name crp)\<rparr>)"
proof
  assume "Review quote s cr = Inr r \<and> rr_Result r = ResultApproved"
  then have r: "Review quote s cr = Inr r" and a: "rr_Result r = ResultApproved" by simp_all
  obtain policies where c: "candidates s cr = Inr policies"
    using r Review_candidates_error [of s cr _ quote] by (cases "candidates s cr") auto
  from c r a have ne: "policies \<noteq> []" by (auto simp: Review_candidates)
  with c r have p: "Review_policies quote (evaluators s) cr policies [] = Inr r"
    by (simp add: Review_candidates)
  show "\<exists>pre crp post.
        candidates s cr = Inr (pre @ crp # post)
        \<and> (\<forall>p \<in> set pre. \<not> fully_satisfies (evaluators s) cr p
                          \<and> \<not> evaluator_errors (evaluators s) cr p)
        \<and> fully_satisfies (evaluators s) cr crp
        \<and> r = \<lparr>rr_Result = ResultApproved,
                rr_Message = ''Approved by CertificateRequestPolicy: '' @ quote (Name crp)\<rparr>"
  proof (cases policies "evaluators s" cr rule: policies_cases)
    case denied
    with p have "r = Review_denied (map (policy_message (evaluators s) cr) policies)"
      by (simp add: Review_policies_denied)
    with a show ?thesis by simp
  next
    case (approved pre crp post)
    with p have "r = \<lparr>rr_Result = ResultApproved,
        rr_Message = ''Approved by CertificateRequestPolicy: '' @ quote (Name crp)\<rparr>"
      by (simp add: Review_policies_approved)
    with approved c show ?thesis by (auto simp: denied_by_def)
  next
    case (error pre crp post)
    from error(3) obtain err where "Review_evaluators (evaluators s) crp cr False [] = Inl err"
      using Review_evaluators_errors by blast
    with error(1,2) have "Review_policies quote (evaluators s) cr policies [] = Inl err"
      by (simp add: Review_policies_error)
    with p show ?thesis by simp
  qed
next
  assume "\<exists>pre crp post.
        candidates s cr = Inr (pre @ crp # post)
        \<and> (\<forall>p \<in> set pre. \<not> fully_satisfies (evaluators s) cr p
                          \<and> \<not> evaluator_errors (evaluators s) cr p)
        \<and> fully_satisfies (evaluators s) cr crp
        \<and> r = \<lparr>rr_Result = ResultApproved,
                rr_Message = ''Approved by CertificateRequestPolicy: '' @ quote (Name crp)\<rparr>"
  then obtain pre crp post where c: "candidates s cr = Inr (pre @ crp # post)"
    and pre: "\<forall>p \<in> set pre. denied_by (evaluators s) cr p"
    and ok: "fully_satisfies (evaluators s) cr crp"
    and r: "r = \<lparr>rr_Result = ResultApproved,
                rr_Message = ''Approved by CertificateRequestPolicy: '' @ quote (Name crp)\<rparr>"
    by (auto simp: denied_by_def)
  from pre ok have "Review_policies quote (evaluators s) cr (pre @ crp # post) [] = Inr r"
    unfolding r by (rule Review_policies_approved)
  with c r show "Review quote s cr = Inr r \<and> rr_Result r = ResultApproved"
    by (simp add: Review_candidates)
qed

theorem Review_Approved_iff_witness:
  "Review quote_plain
     (example_manager [name_policy ''a'' ''x'', name_policy ''b'' ''test'', example_policy ''broken'' any_issuer []]
        [common_name_evaluator, failing_evaluator]) example_request
   = Inr \<lparr>rr_Result = ResultApproved,
          rr_Message = ''Approved by CertificateRequestPolicy: '' @ quote_plain ''b''\<rparr>"
proof -
  let ?s = "example_manager [name_policy ''a'' ''x'', name_policy ''b'' ''test'', example_policy ''broken'' any_issuer []]
        [common_name_evaluator, failing_evaluator]"
  let ?r = "\<lparr>rr_Result = ResultApproved,
          rr_Message = ''Approved by CertificateRequestPolicy: '' @ quote_plain (Name (name_policy ''b'' ''test''))\<rparr>"
  have "candidates ?s example_request
      = Inr ([name_policy ''a'' ''x''] @ name_policy ''b'' ''test''
              # [example_policy ''broken'' any_issuer []])"
    unfolding example_candidates
    by (simp add: selector_keeps_def field_matches_def example_defs)
  moreover have "\<forall>p \<in> set [name_policy ''a'' ''x''].
     \<not> fully_satisfies (evaluators ?s) example_request p
     \<and> \<not> evaluator_errors (evaluators ?s) example_request p"
    by (simp add: evaluator_errors_def fully_satisfies_def returns_NotDenied_def example_defs)
  moreover have "fully_satisfies (evaluators ?s) example_request (name_policy ''b'' ''test'')"
    by (simp add: fully_satisfies_def returns_NotDenied_def example_defs)
  ultimately have "Review quote_plain ?s example_request = Inr ?r \<and> rr_Result ?r = ResultApproved"
    using Review_Approved_iff [of quote_plain ?s example_request ?r] by blast
  then show ?thesis by (simp add: name_policy_def example_policy_def)
qed

text \<open>
  C3. As stated (the selection applies the readiness filter first; a policy whose
  readiness condition is not true never reaches evaluation) the property fails:
  \<^verbatim>\<open>Review\<close> does not call \<^verbatim>\<open>Ready\<close>. Below, a policy without any condition,
  which \<^verbatim>\<open>Ready\<close> drops, is evaluated and approves the request.
\<close>

theorem Review_approves_unready_policy:
  "\<not> is_ready (example_policy ''open'' any_issuer [])
   \<and> Ready example_request [example_policy ''open'' any_issuer []] = Inr []
   \<and> selector_keeps example_request (example_policy ''open'' any_issuer [])
   \<and> Review quote_plain
       (example_manager [example_policy ''open'' any_issuer []] [common_name_evaluator])
       example_request
     = Inr \<lparr>rr_Result = ResultApproved,
            rr_Message = ''Approved by CertificateRequestPolicy: '' @ quote_plain ''open''\<rparr>"
  by (simp add: is_ready_def Ready_def selector_keeps_def field_matches_def Review_def
      issuerRefSelector_def boundPolicies_def Let_def example_defs)

text \<open>
  C3, amended. The selection of \<^verbatim>\<open>Review\<close> applies the issuer-reference selector
  and then the RBAC-bound filter, and no readiness filter: when no authorization check
  of a policy kept by the selector fails, the policies that reach evaluation are the
  listed policies that match the selector and that the requester is authorized to use,
  whatever their readiness condition. The predicate \<^verbatim>\<open>Ready\<close>, which
  \<^verbatim>\<open>Review\<close> does not call, returns only policies that have a condition of type
  \<^verbatim>\<open>Ready\<close> with status \<^verbatim>\<open>True\<close>.
\<close>

theorem Review_selection_ignores_readiness:
  "(client_List (client s) = Inr crps
      \<and> (\<forall>p \<in> set crps. selector_keeps cr p \<longrightarrow> \<not> check_fails (client s) cr p) \<longrightarrow>
      candidates s cr = Inr (filter (\<lambda>p. selector_keeps cr p \<and> allowed (client s) cr p) crps))
   \<and> (candidates s cr = Inr policies \<and> policies \<noteq> [] \<longrightarrow>
        Review quote s cr = Review_policies quote (evaluators s) cr policies [])
   \<and> (\<exists>ready. Ready cr crps = Inr ready \<and> set ready = {p \<in> set crps. is_ready p})"
proof -
  have "client_List (client s) = Inr crps
      \<and> (\<forall>p \<in> set crps. selector_keeps cr p \<longrightarrow> \<not> check_fails (client s) cr p) \<longrightarrow>
      candidates s cr = Inr (filter (\<lambda>p. selector_keeps cr p \<and> allowed (client s) cr p) crps)"
    by (simp add: candidates_iff)
  moreover have "candidates s cr = Inr policies \<and> policies \<noteq> [] \<longrightarrow>
        Review quote s cr = Review_policies quote (evaluators s) cr policies []"
    by (simp add: Review_candidates)
  moreover have "\<exists>ready. Ready cr crps = Inr ready \<and> set ready = {p \<in> set crps. is_ready p}"
    by (simp add: Ready_def Ready_loop_set)
  ultimately show ?thesis by blast
qed

theorem Review_selection_ignores_readiness_witness:
  "candidates (example_manager [example_policy ''open'' any_issuer [], example_policy ''b'' other_selector [ready_true]]
       [common_name_evaluator]) example_request
     = Inr [example_policy ''open'' any_issuer []]
   \<and> Review quote_plain
       (example_manager [example_policy ''open'' any_issuer [], example_policy ''b'' other_selector [ready_true]]
          [common_name_evaluator]) example_request
     = Review_policies quote_plain [common_name_evaluator] example_request
         [example_policy ''open'' any_issuer []] []
   \<and> Ready example_request
       [example_policy ''open'' any_issuer [], example_policy ''b'' other_selector [ready_true]]
     = Inr [example_policy ''b'' other_selector [ready_true]]"
proof -
  let ?crps = "[example_policy ''open'' any_issuer [], example_policy ''b'' other_selector [ready_true]]"
  let ?s = "example_manager ?crps [common_name_evaluator]"
  have l: "client_List (client ?s) = Inr ?crps"
    by (simp add: example_manager_def example_client_def)
  have ok: "\<forall>p \<in> set ?crps. selector_keeps example_request p
      \<longrightarrow> \<not> check_fails (client ?s) example_request p"
    by (simp add: check_fails_def example_manager_def example_client_def allow_all_def)
  have f: "filter (\<lambda>p. selector_keeps example_request p \<and> allowed (client ?s) example_request p) ?crps
      = [example_policy ''open'' any_issuer []]"
    by (simp add: selector_keeps_def field_matches_def allowed_def use_review_def example_defs)
  have c: "candidates ?s example_request = Inr [example_policy ''open'' any_issuer []]"
    using l ok f
      Review_selection_ignores_readiness [where s = ?s and crps = ?crps and cr = example_request]
    by simp
  have r: "Review quote_plain ?s example_request
      = Review_policies quote_plain [common_name_evaluator] example_request
         [example_policy ''open'' any_issuer []] []"
    using c
      Review_selection_ignores_readiness
        [where s = ?s and policies = "[example_policy ''open'' any_issuer []]"
           and cr = example_request and quote = quote_plain]
    by (simp add: example_manager_def)
  have y: "Ready example_request ?crps = Inr [example_policy ''b'' other_selector [ready_true]]"
    by (simp add: Ready_def example_policy_def ready_true_def
        CertificateRequestPolicyConditionReady_def ConditionTrue_def)
  from c r y show ?thesis by blast
qed

text \<open>
  C4. As stated (whenever some policies survive selection and none fully satisfies all
  evaluators, \<^verbatim>\<open>Review\<close> returns \<^verbatim>\<open>ResultDenied\<close> with a message that is the same
  for any listing order) the property fails in two ways. An evaluator that returns an
  error ends the review with that error, not with a denial. And the sort is stable and
  by name only, so two listed policies of the same name keep their listing order in the
  message.
\<close>

theorem Review_Denied_not_for_every_input:
  "candidates (example_manager [name_policy ''broken'' ''x''] [common_name_evaluator, failing_evaluator])
       example_request
     = Inr [name_policy ''broken'' ''x'']
   \<and> \<not> fully_satisfies [common_name_evaluator, failing_evaluator] example_request
         (name_policy ''broken'' ''x'')
   \<and> Review quote_plain
       (example_manager [name_policy ''broken'' ''x''] [common_name_evaluator, failing_evaluator])
       example_request
     = Inl (Opaque ''evaluator failed'')
   \<and> Review quote_plain
       (example_manager [name_policy ''a'' ''x'', name_policy ''a'' ''y''] [common_name_evaluator])
       example_request
     = Inr \<lparr>rr_Result = ResultDenied,
            rr_Message = ''No policy approved this request: [a: common name must be x] [a: common name must be y]''\<rparr>
   \<and> Review quote_plain
       (example_manager [name_policy ''a'' ''y'', name_policy ''a'' ''x''] [common_name_evaluator])
       example_request
     = Inr \<lparr>rr_Result = ResultDenied,
            rr_Message = ''No policy approved this request: [a: common name must be y] [a: common name must be x]''\<rparr>"
proof -
  have "candidates (example_manager [name_policy ''broken'' ''x''] [common_name_evaluator, failing_evaluator])
       example_request
     = Inr [name_policy ''broken'' ''x'']"
    unfolding example_candidates
    by (simp add: selector_keeps_def field_matches_def example_defs)
  moreover have "\<not> fully_satisfies [common_name_evaluator, failing_evaluator] example_request
         (name_policy ''broken'' ''x'')"
    by (simp add: fully_satisfies_def returns_NotDenied_def example_defs)
  moreover have "Review quote_plain
       (example_manager [name_policy ''broken'' ''x''] [common_name_evaluator, failing_evaluator])
       example_request
     = Inl (Opaque ''evaluator failed'')"
    by (simp add: Review_def issuerRefSelector_def boundPolicies_def Let_def example_defs)
  moreover have "Review quote_plain
       (example_manager [name_policy ''a'' ''x'', name_policy ''a'' ''y''] [common_name_evaluator])
       example_request
     = Inr \<lparr>rr_Result = ResultDenied,
            rr_Message = ''No policy approved this request: [a: common name must be x] [a: common name must be y]''\<rparr>"
    by (simp add: Review_def issuerRefSelector_def boundPolicies_def Let_def Review_denied_def
        example_defs)
  moreover have "Review quote_plain
       (example_manager [name_policy ''a'' ''y'', name_policy ''a'' ''x''] [common_name_evaluator])
       example_request
     = Inr \<lparr>rr_Result = ResultDenied,
            rr_Message = ''No policy approved this request: [a: common name must be y] [a: common name must be x]''\<rparr>"
    by (simp add: Review_def issuerRefSelector_def boundPolicies_def Let_def Review_denied_def
        example_defs)
  ultimately show ?thesis by blast
qed

text \<open>
  C4, amended. When some policies survive selection, no evaluator returns an error for
  any of them and none of them has every evaluator return \<^verbatim>\<open>ResultNotDenied\<close>,
  \<^verbatim>\<open>Review\<close> returns \<^verbatim>\<open>ResultDenied\<close> with the message made of one bracketed
  entry per surviving policy, the policy's name followed by the messages of all
  evaluators joined by commas, the entries stably sorted by policy name and separated by
  spaces. When listed policies of the same name are the same policy, a denial and its
  message are the same for every listing order of the same policies.
\<close>

theorem Review_Denied_message:
  "(candidates s cr = Inr policies \<and> policies \<noteq> []
      \<and> (\<forall>p \<in> set policies. \<not> evaluator_errors (evaluators s) cr p
                               \<and> \<not> fully_satisfies (evaluators s) cr p) \<longrightarrow>
      Review quote s cr =
        Inr \<lparr>rr_Result = ResultDenied,
             rr_Message = ''No policy approved this request: '' @
               strings_Join
                 (map (\<lambda>crp. ''['' @ Name crp @ '': ''
                        @ strings_Join (evaluator_messages (evaluators s) cr crp) '', '' @ '']'')
                    (sort_key Name policies)) '' ''\<rparr>)
   \<and> (client_List (client s) = Inr crps \<and> mset crps' = mset crps \<and> inj_on Name (set crps)
        \<and> Review quote s cr = Inr r \<and> rr_Result r = ResultDenied \<longrightarrow>
        Review quote (s\<lparr>client := (client s)\<lparr>client_List := Inr crps'\<rparr>\<rparr>) cr = Inr r)"
proof -
  have message: "candidates s cr = Inr policies \<and> policies \<noteq> []
      \<and> (\<forall>p \<in> set policies. \<not> evaluator_errors (evaluators s) cr p
                               \<and> \<not> fully_satisfies (evaluators s) cr p) \<longrightarrow>
      Review quote s cr =
        Inr \<lparr>rr_Result = ResultDenied,
             rr_Message = ''No policy approved this request: '' @
               strings_Join
                 (map (\<lambda>crp. ''['' @ Name crp @ '': ''
                        @ strings_Join (evaluator_messages (evaluators s) cr crp) '', '' @ '']'')
                    (sort_key Name policies)) '' ''\<rparr>"
  proof (intro impI, elim conjE)
    assume c: "candidates s cr = Inr policies" and ne: "policies \<noteq> []"
      and d: "\<forall>p \<in> set policies. \<not> evaluator_errors (evaluators s) cr p
                               \<and> \<not> fully_satisfies (evaluators s) cr p"
    from d have "\<forall>p \<in> set policies. denied_by (evaluators s) cr p"
      by (simp add: denied_by_def)
    then have "Review_policies quote (evaluators s) cr policies [] =
        Inr (Review_denied (map (policy_message (evaluators s) cr) policies))"
      by (simp add: Review_policies_denied)
    with c ne show "Review quote s cr =
        Inr \<lparr>rr_Result = ResultDenied,
             rr_Message = ''No policy approved this request: '' @
               strings_Join
                 (map (\<lambda>crp. ''['' @ Name crp @ '': ''
                        @ strings_Join (evaluator_messages (evaluators s) cr crp) '', '' @ '']'')
                    (sort_key Name policies)) '' ''\<rparr>"
      by (simp add: Review_candidates Review_denied_policies)
  qed
  have order: "client_List (client s) = Inr crps \<and> mset crps' = mset crps \<and> inj_on Name (set crps)
        \<and> Review quote s cr = Inr r \<and> rr_Result r = ResultDenied \<longrightarrow>
        Review quote (s\<lparr>client := (client s)\<lparr>client_List := Inr crps'\<rparr>\<rparr>) cr = Inr r"
  proof (intro impI, elim conjE)
    let ?s' = "s\<lparr>client := (client s)\<lparr>client_List := Inr crps'\<rparr>\<rparr>"
    let ?keep = "\<lambda>p. selector_keeps cr p \<and> allowed (client s) cr p"
    let ?pm = "policy_message (evaluators s) cr"
    assume l: "client_List (client s) = Inr crps" and m: "mset crps' = mset crps"
      and inj: "inj_on Name (set crps)"
      and r: "Review quote s cr = Inr r" and res: "rr_Result r = ResultDenied"
    from m have sets: "set crps' = set crps" by (rule mset_eq_setD)
    from r res obtain policies where c: "candidates s cr = Inr policies"
      and ne: "policies \<noteq> []"
      and d: "\<forall>p \<in> set policies. denied_by (evaluators s) cr p"
      and r_eq: "r = Review_denied (map ?pm policies)"
      by (rule Review_Denied_candidates)
    from c l have ok: "\<forall>p \<in> set crps. selector_keeps cr p \<longrightarrow> \<not> check_fails (client s) cr p"
      and p: "policies = filter ?keep crps"
      by (simp_all add: candidates_iff)
    let ?policies' = "filter ?keep crps'"
    have same: "check_fails (client ?s') cr = check_fails (client s) cr"
      "allowed (client ?s') cr = allowed (client s) cr"
      by (simp_all add: check_fails_def allowed_def fun_eq_iff)
    have "client_List (client ?s') = Inr crps'" by simp
    with ok sets same have c': "candidates ?s' cr = Inr ?policies'"
      by (simp add: candidates_iff)
    from p m have pm: "mset ?policies' = mset policies" by simp
    then have ps: "set ?policies' = set policies" by (rule mset_eq_setD)
    have ne': "?policies' \<noteq> []"
    proof
      assume e: "?policies' = []"
      from pm have "mset policies = {#}" unfolding e by simp
      with ne show False by simp
    qed
    from d ps have d': "\<forall>p \<in> set ?policies'. denied_by (evaluators ?s') cr p" by simp
    have "Review quote ?s' cr = Review_policies quote (evaluators ?s') cr ?policies' []"
      using c' ne' by (simp add: Review_candidates)
    also have "\<dots> = Inr (Review_denied (map ?pm ?policies'))"
      using d' by (simp add: Review_policies_denied)
    finally have r': "Review quote ?s' cr = Inr (Review_denied (map ?pm ?policies'))" .
    have "inj_on Name (set ?policies')"
      using inj sets by (auto intro: inj_on_subset)
    then have "sort_key Name ?policies' = sort_key Name policies"
      using pm by (intro sort_key_permuted) simp_all
    then have "Review_denied (map ?pm ?policies') = Review_denied (map ?pm policies)"
      by (simp add: Review_denied_def Let_def sort_key_policy_message)
    with r' r_eq show "Review quote ?s' cr = Inr r" by simp
  qed
  from message order show ?thesis by blast
qed

theorem Review_Denied_message_witness:
  "Review quote_plain
     (example_manager [name_policy ''b'' ''y'', ca_policy ''a'' ''x'']
        [common_name_evaluator, ca_evaluator]) example_request
   = Inr \<lparr>rr_Result = ResultDenied,
          rr_Message = ''No policy approved this request: [a: common name must be x, CA flag not allowed] [b: common name must be y, ]''\<rparr>
   \<and> Review quote_plain
     (example_manager [ca_policy ''a'' ''x'', name_policy ''b'' ''y'']
        [common_name_evaluator, ca_evaluator]) example_request
   = Inr \<lparr>rr_Result = ResultDenied,
          rr_Message = ''No policy approved this request: [a: common name must be x, CA flag not allowed] [b: common name must be y, ]''\<rparr>"
proof -
  let ?crps = "[name_policy ''b'' ''y'', ca_policy ''a'' ''x'']"
  let ?crps' = "[ca_policy ''a'' ''x'', name_policy ''b'' ''y'']"
  let ?evs = "[common_name_evaluator, ca_evaluator]"
  let ?s = "example_manager ?crps ?evs"
  let ?r = "\<lparr>rr_Result = ResultDenied,
          rr_Message = ''No policy approved this request: [a: common name must be x, CA flag not allowed] [b: common name must be y, ]''\<rparr>"
  have c: "candidates ?s example_request = Inr ?crps"
    unfolding example_candidates
    by (simp add: selector_keeps_def field_matches_def example_defs)
  have d: "\<forall>p \<in> set ?crps. \<not> evaluator_errors (evaluators ?s) example_request p
      \<and> \<not> fully_satisfies (evaluators ?s) example_request p"
    by (simp add: evaluator_errors_def fully_satisfies_def returns_NotDenied_def example_defs)
  have one: "Review quote_plain ?s example_request = Inr ?r"
    using c d
      Review_Denied_message
        [where s = ?s and cr = example_request and policies = ?crps and quote = quote_plain]
    by (simp add: evaluator_messages_def example_defs)
  have l: "client_List (client ?s) = Inr ?crps"
    by (simp add: example_defs)
  have m: "mset ?crps' = mset ?crps" by (simp add: add.commute)
  have i: "inj_on Name (set ?crps)" by (simp add: example_defs)
  have s': "?s\<lparr>client := (client ?s)\<lparr>client_List := Inr ?crps'\<rparr>\<rparr> = example_manager ?crps' ?evs"
    by (simp add: example_manager_def example_client_def)
  have two: "Review quote_plain (example_manager ?crps' ?evs) example_request = Inr ?r"
    using l m i one
      Review_Denied_message
        [where s = ?s and cr = example_request and crps = ?crps and crps' = ?crps'
           and r = ?r and quote = quote_plain]
    unfolding s' by simp
  from one two show ?thesis by blast
qed

section \<open>The attribute evaluator's answer\<close>

text \<open>
  C9. The attribute evaluator returns \<^verbatim>\<open>NotDenied\<close> with an empty message when the
  policy sets no constraints. Otherwise it returns \<^verbatim>\<open>Denied\<close> exactly when some
  constrained field is violated, and its single message then has one entry for every
  violated field, in the fixed order of the fields, each entry made of the field path,
  the offending request value and the allowed value: every violation is listed, not
  only the first.
\<close>

theorem attribute_Evaluate_all_violations:
  "(no_constraints crp \<longrightarrow>
      attribute_Evaluate pr crp cr = Inr \<lparr>er_Result = approver_ResultNotDenied, er_Message = []\<rparr>)
   \<and> attribute_Evaluate pr crp cr =
       Inr \<lparr>er_Result = (if attribute_violations crp cr = [] then approver_ResultNotDenied
                         else approver_ResultDenied),
            er_Message = strings_Join (map (violation_entry pr) (attribute_violations crp cr)) '', ''\<rparr>
   \<and> subseq (map field_path (attribute_violations crp cr)) attribute_paths
   \<and> (Spec_AllowedCommonName crp = Some cn_pat \<and> \<not> WildcardMatchs cn_pat (CommonName cr) \<longrightarrow>
        \<lparr>field_path = ''spec.allowedCommonName'', request_value = VString (CommonName cr),
         allowed_value = VString cn_pat\<rparr> \<in> set (attribute_violations crp cr))
   \<and> (Spec_MinDuration crp = Some minimum \<and> Spec_Duration cr = Some d \<and> d < minimum \<longrightarrow>
        \<lparr>field_path = ''spec.minDuration'', request_value = VDuration d,
         allowed_value = VDuration minimum\<rparr> \<in> set (attribute_violations crp cr))
   \<and> (Spec_AllowedDNSNames crp = Some dns_pats \<and> \<not> all_match_some dns_pats (DNSNames cr) \<longrightarrow>
        \<lparr>field_path = ''spec.allowedDNSNames'', request_value = VStrings (DNSNames cr),
         allowed_value = VStrings dns_pats\<rparr> \<in> set (attribute_violations crp cr))
   \<and> (Spec_AllowedIPAddresses crp = Some ip_pats \<and> \<not> all_match_some ip_pats (IPAddresses cr) \<longrightarrow>
        \<lparr>field_path = ''spec.allowedIPAddresses'', request_value = VStrings (IPAddresses cr),
         allowed_value = VStrings ip_pats\<rparr> \<in> set (attribute_violations crp cr))
   \<and> (Spec_AllowedURIs crp = Some uri_pats \<and> \<not> all_match_some uri_pats (URIs cr) \<longrightarrow>
        \<lparr>field_path = ''spec.allowedURIs'', request_value = VStrings (URIs cr),
         allowed_value = VStrings uri_pats\<rparr> \<in> set (attribute_violations crp cr))
   \<and> (Spec_AllowedIssuers crp = Some issuers
        \<and> \<not> list_ex (issuer_matches (Spec_IssuerRef cr)) issuers \<longrightarrow>
        \<lparr>field_path = ''spec.allowedIssuers'', request_value = VIssuer (Spec_IssuerRef cr),
         allowed_value = VIssuers issuers\<rparr> \<in> set (attribute_violations crp cr))
   \<and> (Spec_AllowedIsCA crp = Some flag \<and> Spec_IsCA cr \<noteq> flag \<longrightarrow>
        \<lparr>field_path = ''spec.allowedIsCA'', request_value = VBool (Spec_IsCA cr),
         allowed_value = VBool flag\<rparr> \<in> set (attribute_violations crp cr))
   \<and> (Spec_AllowedPrivateKey crp = Some key \<and> AllowedAlgorithm key = Some alg
        \<and> PublicKeyAlgorithm cr \<noteq> alg \<longrightarrow>
        \<lparr>field_path = ''spec.allowedPrivateKey.allowedAlgorithm'',
         request_value = VAlgorithm (PublicKeyAlgorithm cr),
         allowed_value = VAlgorithm alg\<rparr> \<in> set (attribute_violations crp cr))
   \<and> (Spec_AllowedPrivateKey crp = Some key \<and> MinSize key = Some min_size
        \<and> PublicKeySize cr < min_size \<longrightarrow>
        \<lparr>field_path = ''spec.allowedPrivateKey.minSize'',
         request_value = VSize (PublicKeySize cr),
         allowed_value = VSize min_size\<rparr> \<in> set (attribute_violations crp cr))
   \<and> (Spec_AllowedPrivateKey crp = Some key \<and> MaxSize key = Some max_size
        \<and> max_size < PublicKeySize cr \<longrightarrow>
        \<lparr>field_path = ''spec.allowedPrivateKey.maxSize'',
         request_value = VSize (PublicKeySize cr),
         allowed_value = VSize max_size\<rparr> \<in> set (attribute_violations crp cr))"
proof -
  have none: "no_constraints crp \<longrightarrow>
      attribute_Evaluate pr crp cr = Inr \<lparr>er_Result = approver_ResultNotDenied, er_Message = []\<rparr>"
    by (simp add: attribute_Evaluate_def no_constraints_no_violations)
  have result: "attribute_Evaluate pr crp cr =
       Inr \<lparr>er_Result = (if attribute_violations crp cr = [] then approver_ResultNotDenied
                         else approver_ResultDenied),
            er_Message = strings_Join (map (violation_entry pr) (attribute_violations crp cr)) '', ''\<rparr>"
    by (simp add: attribute_Evaluate_def Let_def)
  have cn: "Spec_AllowedCommonName crp = Some cn_pat \<and> \<not> WildcardMatchs cn_pat (CommonName cr) \<longrightarrow>
        \<lparr>field_path = ''spec.allowedCommonName'', request_value = VString (CommonName cr),
         allowed_value = VString cn_pat\<rparr> \<in> set (attribute_violations crp cr)"
    by (simp add: attribute_violations_def entry_if_member)
  have dur: "Spec_MinDuration crp = Some minimum \<and> Spec_Duration cr = Some d \<and> d < minimum \<longrightarrow>
        \<lparr>field_path = ''spec.minDuration'', request_value = VDuration d,
         allowed_value = VDuration minimum\<rparr> \<in> set (attribute_violations crp cr)"
    by (simp add: attribute_violations_def entry_if_member)
  have dns: "Spec_AllowedDNSNames crp = Some dns_pats \<and> \<not> all_match_some dns_pats (DNSNames cr) \<longrightarrow>
        \<lparr>field_path = ''spec.allowedDNSNames'', request_value = VStrings (DNSNames cr),
         allowed_value = VStrings dns_pats\<rparr> \<in> set (attribute_violations crp cr)"
    by (simp add: attribute_violations_def entry_if_member)
  have ip: "Spec_AllowedIPAddresses crp = Some ip_pats \<and> \<not> all_match_some ip_pats (IPAddresses cr) \<longrightarrow>
        \<lparr>field_path = ''spec.allowedIPAddresses'', request_value = VStrings (IPAddresses cr),
         allowed_value = VStrings ip_pats\<rparr> \<in> set (attribute_violations crp cr)"
    by (simp add: attribute_violations_def entry_if_member)
  have uri: "Spec_AllowedURIs crp = Some uri_pats \<and> \<not> all_match_some uri_pats (URIs cr) \<longrightarrow>
        \<lparr>field_path = ''spec.allowedURIs'', request_value = VStrings (URIs cr),
         allowed_value = VStrings uri_pats\<rparr> \<in> set (attribute_violations crp cr)"
    by (simp add: attribute_violations_def entry_if_member)
  have iss: "Spec_AllowedIssuers crp = Some issuers
        \<and> \<not> list_ex (issuer_matches (Spec_IssuerRef cr)) issuers \<longrightarrow>
        \<lparr>field_path = ''spec.allowedIssuers'', request_value = VIssuer (Spec_IssuerRef cr),
         allowed_value = VIssuers issuers\<rparr> \<in> set (attribute_violations crp cr)"
    by (simp add: attribute_violations_def entry_if_member)
  have ca: "Spec_AllowedIsCA crp = Some flag \<and> Spec_IsCA cr \<noteq> flag \<longrightarrow>
        \<lparr>field_path = ''spec.allowedIsCA'', request_value = VBool (Spec_IsCA cr),
         allowed_value = VBool flag\<rparr> \<in> set (attribute_violations crp cr)"
    by (simp add: attribute_violations_def entry_if_member)
  have alg: "Spec_AllowedPrivateKey crp = Some key \<and> AllowedAlgorithm key = Some alg
        \<and> PublicKeyAlgorithm cr \<noteq> alg \<longrightarrow>
        \<lparr>field_path = ''spec.allowedPrivateKey.allowedAlgorithm'',
         request_value = VAlgorithm (PublicKeyAlgorithm cr),
         allowed_value = VAlgorithm alg\<rparr> \<in> set (attribute_violations crp cr)"
    by (simp add: attribute_violations_def private_key_violations_def entry_if_member)
  have smin: "Spec_AllowedPrivateKey crp = Some key \<and> MinSize key = Some min_size
        \<and> PublicKeySize cr < min_size \<longrightarrow>
        \<lparr>field_path = ''spec.allowedPrivateKey.minSize'',
         request_value = VSize (PublicKeySize cr),
         allowed_value = VSize min_size\<rparr> \<in> set (attribute_violations crp cr)"
    by (simp add: attribute_violations_def private_key_violations_def entry_if_member)
  have smax: "Spec_AllowedPrivateKey crp = Some key \<and> MaxSize key = Some max_size
        \<and> max_size < PublicKeySize cr \<longrightarrow>
        \<lparr>field_path = ''spec.allowedPrivateKey.maxSize'',
         request_value = VSize (PublicKeySize cr),
         allowed_value = VSize max_size\<rparr> \<in> set (attribute_violations crp cr)"
    by (simp add: attribute_violations_def private_key_violations_def entry_if_member)
  from none result paths_attribute [of crp cr] cn dur dns ip uri iss ca alg smin smax
  show ?thesis by (intro conjI)
qed

theorem attribute_Evaluate_all_violations_witness:
  "attribute_Evaluate show_Value (example_policy ''p'' any_issuer []) test_request
     = Inr \<lparr>er_Result = approver_ResultNotDenied, er_Message = []\<rparr>
   \<and> attribute_Evaluate show_Value test_policy test_request
     = Inr \<lparr>er_Result = approver_ResultDenied,
            er_Message = ''spec.allowedCommonName: test: not-test, spec.minDuration: 360000000000000ns: 720000000000000ns, spec.allowedDNSNames: [foo.bar example.com]: [not-foo.bar], spec.allowedIPAddresses: [1.2.3.4]: [5.6.7.8], spec.allowedURIs: [hello.world]: [world.hello], spec.allowedIssuers: {my-issuer my-kind my-group}: [{not-my-issuer not-my-kind not-my-group}], spec.allowedIsCA: true: false, spec.allowedPrivateKey.allowedAlgorithm: RSA: ECDSA''\<rparr>"
proof -
  have n: "no_constraints (example_policy ''p'' any_issuer [])"
    by (simp add: no_constraints_def example_policy_def)
  have one: "attribute_Evaluate show_Value (example_policy ''p'' any_issuer []) test_request
     = Inr \<lparr>er_Result = approver_ResultNotDenied, er_Message = []\<rparr>"
    using n attribute_Evaluate_all_violations
      [where crp = "example_policy ''p'' any_issuer []" and cr = test_request and pr = show_Value]
    by simp
  have two: "attribute_Evaluate show_Value test_policy test_request
     = Inr \<lparr>er_Result = approver_ResultDenied,
            er_Message = ''spec.allowedCommonName: test: not-test, spec.minDuration: 360000000000000ns: 720000000000000ns, spec.allowedDNSNames: [foo.bar example.com]: [not-foo.bar], spec.allowedIPAddresses: [1.2.3.4]: [5.6.7.8], spec.allowedURIs: [hello.world]: [world.hello], spec.allowedIssuers: {my-issuer my-kind my-group}: [{not-my-issuer not-my-kind not-my-group}], spec.allowedIsCA: true: false, spec.allowedPrivateKey.allowedAlgorithm: RSA: ECDSA''\<rparr>"
    using attribute_Evaluate_all_violations
      [where crp = test_policy and cr = test_request and pr = show_Value]
    unfolding test_violations
    by (simp add: violation_entry_def show_ref_def show_nat.simps)
  from one two show ?thesis by blast
qed

end
